theory Spec2Isabelle
  imports Complex_Main "HOL-Library.Log_Nat"
begin

section \<open>text-to-svg: data model\<close>

text \<open>
  The TypeScript class \<open>TextToSVG\<close> wraps an opentype.js font and computes text metrics
  (\<open>getWidth\<close>, \<open>getHeight\<close>, \<open>getMetrics\<close>) and SVG strings (\<open>getD\<close>, \<open>getPath\<close>,
  \<open>getSVG\<close>, \<open>getDebugSVG\<close>).

  Conventions of the embedding:
  \<^item> a JavaScript number is a \<open>real\<close>; \<open>NaN\<close> and the infinities are outside the
    model. An optional numeric field is a \<open>real option\<close>, \<open>None\<close> standing for
    \<open>undefined\<close> (key absent or set to \<open>undefined\<close>: the code only distinguishes the
    two for \<open>kerning\<close>);
  \<^item> the arithmetic is read twice. \<open>getWidth\<close>, \<open>getHeight\<close> and \<open>getMetrics\<close> compute
    with exact real numbers: they say which terms the code adds, in which order and
    under which conditions. \<open>getWidth_fl\<close>, \<open>getHeight_fl\<close> and \<open>getMetrics_fl\<close> are the
    same programs with every operation rounded to double precision, as the engine
    computes them;
  \<^item> \<open>1 / unitsPerEm\<close> is \<open>Infinity\<close> in JavaScript when \<open>unitsPerEm\<close> is 0, and 0 in
    HOL: the statements about computed numbers are made for fonts with a positive
    \<open>unitsPerEm\<close>, which the font format requires;
  \<^item> a JavaScript string is a \<open>string\<close> (code units below 256);
  \<^item> an exception is the left summand of \<open>error + 'a\<close>;
  \<^item> the font object of opentype.js is a record of the members the code reads and
    the methods it calls; what those methods compute is a parameter.
\<close>

record Glyph =
  glyph_index :: nat
  advanceWidth :: "real option"

record RenderOptions =
  ro_kerning :: "bool option"
  ro_letterSpacing :: "real option"
  ro_tracking :: "real option"

datatype Path = Path (toPathData: string)

record Font =
  unitsPerEm :: real
  ascender :: real
  descender :: real
  stringToGlyphs :: "string \<Rightarrow> Glyph list"
  getKerningValue :: "Glyph \<Rightarrow> Glyph \<Rightarrow> real"
  font_getPath :: "string \<Rightarrow> real \<Rightarrow> real \<Rightarrow> real \<Rightarrow> RenderOptions \<Rightarrow> Path"

text \<open>
  \<open>TextToSVGOptions\<close>. The field \<open>kerning\<close> is read through \<open>'kerning' in options\<close>, so
  it has three layers: \<open>None\<close> (key absent), \<open>Some None\<close> (key present, value
  \<open>undefined\<close>), \<open>Some (Some b)\<close>. The fields \<open>x\<close> and \<open>y\<close> are named \<open>opt_x\<close> and
  \<open>opt_y\<close>. \<open>attributes\<close> is the object's list of own keys, in key order, each with its
  value; the values are the primitive values of JavaScript (objects, arrays and functions
  as attribute values are outside the model).
\<close>

datatype attr_value = AUndefined | ANull | ABool bool | ANum real | AStr string

record TextToSVGOptions =
  fontSize :: "real option"
  letterSpacing :: "real option"
  tracking :: "real option"
  kerning :: "bool option option"
  anchor :: "string option"
  opt_x :: "real option"
  opt_y :: "real option"
  attributes :: "(string \<times> attr_value) list option"

record Anchor =
  horizontal :: string
  vertical :: string

record Metrics =
  m_x :: real
  m_y :: real
  m_baseline :: real
  m_width :: real
  m_height :: real
  m_ascender :: real
  m_descender :: real

datatype error = Error string

subsection \<open>JavaScript truthiness and defaults\<close>

definition truthy_num :: "real option \<Rightarrow> bool" where
  "truthy_num v = (case v of None \<Rightarrow> False | Some r \<Rightarrow> r \<noteq> 0)"

definition truthy_bool :: "bool option \<Rightarrow> bool" where
  "truthy_bool v = (case v of None \<Rightarrow> False | Some b \<Rightarrow> b)"

text \<open>\<open>v || d\<close> on an optional number.\<close>

definition num_or :: "real option \<Rightarrow> real \<Rightarrow> real" where
  "num_or v d = (case v of None \<Rightarrow> d | Some r \<Rightarrow> if r \<noteq> 0 then r else d)"

text \<open>\<open>v || ''\<close> on an optional string.\<close>

definition str_or_empty :: "string option \<Rightarrow> string" where
  "str_or_empty v = (case v of None \<Rightarrow> [] | Some s \<Rightarrow> s)"

text \<open>\<open>'kerning' in options ? options.kerning : true\<close>.\<close>

definition kerning_of :: "TextToSVGOptions \<Rightarrow> bool option" where
  "kerning_of options = (case kerning options of None \<Rightarrow> Some True | Some k \<Rightarrow> k)"

section \<open>The anchor parser\<close>

text \<open>
  \<open>anchor.match(/left|center|right/gi)\<close>: a global, case-insensitive search for an
  alternation of literal words. Without the \<open>u\<close> flag the regular expression compares
  characters after \<open>Canonicalize\<close>, which upper-cases a character but never maps a
  non-ASCII character to an ASCII one; the words are ASCII, so only the ASCII letters
  need folding.
\<close>

definition canonicalize :: "char \<Rightarrow> char" where
  "canonicalize c =
     (let n = (of_char c :: nat) in if 97 \<le> n \<and> n \<le> 122 then char_of (n - 32) else c)"

text \<open>The word \<open>kw\<close> matches at the start of \<open>s\<close>, ignoring case.\<close>

definition match_ci :: "string \<Rightarrow> string \<Rightarrow> bool" where
  "match_ci kw s =
     (length kw \<le> length s \<and> map canonicalize (take (length kw) s) = map canonicalize kw)"

text \<open>
  The alternatives are tried in order at one position; the match is the text of the
  input there, in the input's own spelling.
\<close>

fun first_alt :: "string list \<Rightarrow> string \<Rightarrow> string option" where
  "first_alt [] s = None"
| "first_alt (kw # kws) s =
     (if match_ci kw s then Some (take (length kw) s) else first_alt kws s)"

text \<open>
  All matches, left to right, the search resuming after each match (at least one
  character further). The alternatives are non-empty words, so nothing matches at the
  end of the input.
\<close>

function match_all :: "string list \<Rightarrow> string \<Rightarrow> string list" where
  "match_all alts [] = []"
| "match_all alts (c # cs) =
     (case first_alt alts (c # cs) of
        None \<Rightarrow> match_all alts cs
      | Some m \<Rightarrow> m # match_all alts (drop (max 1 (length m)) (c # cs)))"
  by pat_completeness auto
termination
  by (relation "measure (\<lambda>(alts, s). length s)") auto

definition parseAnchorOption :: "string \<Rightarrow> Anchor" where
  "parseAnchorOption anchr =
     (let matchH = match_all [''left'', ''center'', ''right''] anchr;
          h = (if length matchH = 0 then ''left'' else matchH ! 0);
          matchV = match_all [''baseline'', ''top'', ''bottom'', ''middle''] anchr;
          v = (if length matchV = 0 then ''baseline'' else matchV ! 0)
      in \<lparr>horizontal = h, vertical = v\<rparr>)"

section \<open>Width and height\<close>

text \<open>One iteration of the loop of \<open>getWidth\<close>, at index \<open>i\<close>.\<close>

definition getWidth_step ::
  "Font \<Rightarrow> TextToSVGOptions \<Rightarrow> real \<Rightarrow> bool option \<Rightarrow> real \<Rightarrow> Glyph list \<Rightarrow> nat \<Rightarrow> real \<Rightarrow> real"
where
  "getWidth_step font options fontSz kern fontScale glyphs i width =
     (let glyph = glyphs ! i;
          w1 = (case advanceWidth glyph of
                  None \<Rightarrow> width
                | Some a \<Rightarrow> if a \<noteq> 0 then width + a * fontScale else width);
          w2 = (if truthy_bool kern \<and> int i < int (length glyphs) - 1
                then w1 + getKerningValue font glyph (glyphs ! (i + 1)) * fontScale
                else w1);
          w3 = (case tracking options of
                  None \<Rightarrow> w2
                | Some t \<Rightarrow> if t \<noteq> 0 then w2 + (t / 1000) * fontSz else w2)
      in case letterSpacing options of
           None \<Rightarrow> w3
         | Some ls \<Rightarrow> if ls \<noteq> 0 then w2 + ls * fontSz else w3)"

function getWidth_loop ::
  "Font \<Rightarrow> TextToSVGOptions \<Rightarrow> real \<Rightarrow> bool option \<Rightarrow> real \<Rightarrow> Glyph list \<Rightarrow> nat \<Rightarrow> real \<Rightarrow> real"
where
  "getWidth_loop font options fontSz kern fontScale glyphs i width =
     (if i < length glyphs
      then getWidth_loop font options fontSz kern fontScale glyphs (i + 1)
             (getWidth_step font options fontSz kern fontScale glyphs i width)
      else width)"
  by pat_completeness auto
termination
  by (relation "measure (\<lambda>(font, options, fontSz, kern, fontScale, glyphs, i, width).
        length glyphs - i)") auto

declare getWidth_loop.simps [simp del]

definition getWidth :: "Font \<Rightarrow> string \<Rightarrow> TextToSVGOptions \<Rightarrow> real" where
  "getWidth font text options =
     (let fontSz = num_or (fontSize options) 72;
          kern = kerning_of options;
          fontScale = (1 / unitsPerEm font) * fontSz;
          glyphs = stringToGlyphs font text
      in getWidth_loop font options fontSz kern fontScale glyphs 0 0)"

definition getHeight :: "Font \<Rightarrow> real \<Rightarrow> real" where
  "getHeight font fontSz =
     (let fontScale = (1 / unitsPerEm font) * fontSz
      in (ascender font - descender font) * fontScale)"

section \<open>Metrics\<close>

definition getMetrics :: "Font \<Rightarrow> string \<Rightarrow> TextToSVGOptions \<Rightarrow> error + Metrics" where
  "getMetrics font text options =
     (let fontSz = num_or (fontSize options) 72;
          anchr = parseAnchorOption (str_or_empty (anchor options));
          width = getWidth font text options;
          height = getHeight font fontSz;
          fontScale = (1 / unitsPerEm font) * fontSz;
          asc = ascender font * fontScale;
          desc = descender font * fontScale;
          x0 = num_or (opt_x options) 0;
          xr = (if horizontal anchr = ''left'' then Inr (x0 - 0)
                else if horizontal anchr = ''center'' then Inr (x0 - width / 2)
                else if horizontal anchr = ''right'' then Inr (x0 - width)
                else Inl (Error (''Unknown anchor option: '' @ horizontal anchr)))
      in case xr of
           Inl e \<Rightarrow> Inl e
         | Inr x \<Rightarrow>
            (let y0 = num_or (opt_y options) 0;
                 yr = (if vertical anchr = ''baseline'' then Inr (y0 - asc)
                       else if vertical anchr = ''top'' then Inr (y0 - 0)
                       else if vertical anchr = ''middle'' then Inr (y0 - height / 2)
                       else if vertical anchr = ''bottom'' then Inr (y0 - height)
                       else Inl (Error (''Unknown anchor option: '' @ vertical anchr)))
             in case yr of
                  Inl e \<Rightarrow> Inl e
                | Inr y \<Rightarrow>
                    Inr \<lparr>m_x = x, m_y = y, m_baseline = y + asc, m_width = width,
                         m_height = height, m_ascender = asc, m_descender = desc\<rparr>))"

section \<open>Path data and SVG strings\<close>

definition getD :: "Font \<Rightarrow> string \<Rightarrow> TextToSVGOptions \<Rightarrow> error + string" where
  "getD font text options =
     (let fontSz = num_or (fontSize options) 72;
          kern = kerning_of options;
          ls = letterSpacing options;
          tr = tracking options
      in case getMetrics font text options of
           Inl e \<Rightarrow> Inl e
         | Inr metrics \<Rightarrow>
             Inr (toPathData (font_getPath font text (m_x metrics) (m_baseline metrics) fontSz
                    \<lparr>ro_kerning = kern, ro_letterSpacing = ls, ro_tracking = tr\<rparr>)))"

text \<open>\<open>Array.prototype.join\<close>.\<close>

fun join :: "string \<Rightarrow> string list \<Rightarrow> string" where
  "join sep [] = []"
| "join sep [s] = s"
| "join sep (s # t # ss) = s @ sep @ join sep (t # ss)"

definition dquote :: string where
  "dquote = [char_of (34 :: nat)]"

text \<open>
  The conversion of a value to a string that a template literal performs.
  \<open>numToString\<close>, the conversion of a number, is a parameter.
\<close>

fun attr_to_string :: "(real \<Rightarrow> string) \<Rightarrow> attr_value \<Rightarrow> string" where
  "attr_to_string numToString AUndefined = ''undefined''"
| "attr_to_string numToString ANull = ''null''"
| "attr_to_string numToString (ABool b) = (if b then ''true'' else ''false'')"
| "attr_to_string numToString (ANum r) = numToString r"
| "attr_to_string numToString (AStr s) = s"

definition getPath ::
  "(real \<Rightarrow> string) \<Rightarrow> Font \<Rightarrow> string \<Rightarrow> TextToSVGOptions \<Rightarrow> error + string"
where
  "getPath numToString font text options =
     (let attrs = (case attributes options of None \<Rightarrow> [] | Some a \<Rightarrow> a);
          attributesStr = join '' ''
            (map (\<lambda>(key, v). key @ ''='' @ dquote @ attr_to_string numToString v @ dquote) attrs)
      in case getD font text options of
           Inl e \<Rightarrow> Inl e
         | Inr d \<Rightarrow>
             if attributesStr \<noteq> []
             then Inr (''<path '' @ attributesStr @ '' d='' @ dquote @ d @ dquote @ ''/>'')
             else Inr (''<path d='' @ dquote @ d @ dquote @ ''/>''))"

definition svg_open :: "string \<Rightarrow> string \<Rightarrow> string" where
  "svg_open w h =
     ''<svg xmlns='' @ dquote @ ''http://www.w3.org/2000/svg'' @ dquote
     @ '' xmlns:xlink='' @ dquote @ ''http://www.w3.org/1999/xlink'' @ dquote
     @ '' width='' @ dquote @ w @ dquote @ '' height='' @ dquote @ h @ dquote @ ''>''"

definition getSVG ::
  "(real \<Rightarrow> string) \<Rightarrow> Font \<Rightarrow> string \<Rightarrow> TextToSVGOptions \<Rightarrow> error + string"
where
  "getSVG numToString font text options =
     (case getMetrics font text options of
        Inl e \<Rightarrow> Inl e
      | Inr metrics \<Rightarrow>
         (let svg = svg_open (numToString (m_width metrics)) (numToString (m_height metrics))
          in case getPath numToString font text options of
               Inl e \<Rightarrow> Inl e
             | Inr p \<Rightarrow> Inr (svg @ p @ ''</svg>'')))"

section \<open>The debug overlay, on an object store\<close>

text \<open>
  \<open>getDebugSVG\<close> assigns to \<open>options.x\<close> and \<open>options.y\<close>, so the options objects live in
  a store: a list of objects, an address being an index. The caller passes the address
  \<open>ref\<close> of its object.

  \<open>JSON.parse(JSON.stringify(options))\<close> builds a new object: a key whose value is
  \<open>undefined\<close> is dropped, in the options and in \<open>attributes\<close>; numbers, strings,
  booleans and \<open>null\<close> are kept. The functions that only read the options take the
  object itself.
\<close>

type_synonym store = "TextToSVGOptions list"

definition json_copy :: "TextToSVGOptions \<Rightarrow> TextToSVGOptions" where
  "json_copy options =
     options\<lparr>kerning := (case kerning options of Some None \<Rightarrow> None | k \<Rightarrow> k),
       attributes := (case attributes options of
                        None \<Rightarrow> None
                      | Some a \<Rightarrow> Some (filter (\<lambda>(key, v). v \<noteq> AUndefined) a))\<rparr>"

text \<open>\<open>v += d\<close> on an optional number (\<open>undefined + d\<close> is \<open>NaN\<close>, outside the model).\<close>

definition num_add :: "real option \<Rightarrow> real \<Rightarrow> real option" where
  "num_add v d = (case v of None \<Rightarrow> None | Some r \<Rightarrow> Some (r + d))"

definition getDebugSVG ::
  "(real \<Rightarrow> string) \<Rightarrow> Font \<Rightarrow> string \<Rightarrow> store \<Rightarrow> nat \<Rightarrow> store \<times> (error + string)"
where
  "getDebugSVG numToString font text st ref =
     (let p = length st;
          st1 = st @ [json_copy (st ! ref)];
          st2 = st1[p := (st1 ! p)\<lparr>opt_x := Some (num_or (opt_x (st1 ! p)) 0)\<rparr>];
          st3 = st2[p := (st2 ! p)\<lparr>opt_y := Some (num_or (opt_y (st2 ! p)) 0)\<rparr>]
      in case getMetrics font text (st3 ! p) of
           Inl e \<Rightarrow> (st3, Inl e)
         | Inr metrics \<Rightarrow>
            (let box_width = max (m_x metrics + m_width metrics) 0 - min (m_x metrics) 0;
                 box_height = max (m_y metrics + m_height metrics) 0 - min (m_y metrics) 0;
                 origin_x = box_width - max (m_x metrics + m_width metrics) 0;
                 origin_y = box_height - max (m_y metrics + m_height metrics) 0;
                 st4 = st3[p := (st3 ! p)\<lparr>opt_x := num_add (opt_x (st3 ! p)) origin_x\<rparr>];
                 st5 = st4[p := (st4 ! p)\<lparr>opt_y := num_add (opt_y (st4 ! p)) origin_y\<rparr>];
                 svg = svg_open (numToString box_width) (numToString box_height)
                   @ ''<path fill='' @ dquote @ ''none'' @ dquote
                   @ '' stroke='' @ dquote @ ''red'' @ dquote
                   @ '' stroke-width='' @ dquote @ ''1'' @ dquote
                   @ '' d='' @ dquote @ ''M0,'' @ numToString origin_y @ ''L''
                   @ numToString box_width @ '','' @ numToString origin_y @ dquote @ ''/>''
                   @ ''<path fill='' @ dquote @ ''none'' @ dquote
                   @ '' stroke='' @ dquote @ ''red'' @ dquote
                   @ '' stroke-width='' @ dquote @ ''1'' @ dquote
                   @ '' d='' @ dquote @ ''M'' @ numToString origin_x @ '',0L''
                   @ numToString origin_x @ '','' @ numToString box_height @ dquote @ ''/>''
             in case getPath numToString font text (st5 ! p) of
                  Inl e \<Rightarrow> (st5, Inl e)
                | Inr pth \<Rightarrow> (st5, Inr (svg @ pth @ ''</svg>''))))"

section \<open>Double-precision arithmetic\<close>

text \<open>
  A JavaScript number is an IEEE 754 double: an operation returns its exact result
  rounded to the nearest number with a significand of 53 bits, a tie going to the even
  significand. \<open>fl\<close> is that rounding, with an unbounded exponent: overflow and the
  subnormal numbers are outside the model.
\<close>

text \<open>For \<open>x > 0\<close>, the integer \<open>e\<close> with \<open>2 ^ e \<le> x < 2 ^ (e + 1)\<close>.\<close>

definition exponent :: "real \<Rightarrow> int" where
  "exponent x =
     (if 1 \<le> x then int (floorlog 2 (nat \<lfloor>x\<rfloor>)) - 1
      else - int (floorlog 2 (nat (\<lceil>1 / x\<rceil> - 1))))"

text \<open>The nearest integer, a tie going to the even one.\<close>

definition round_even :: "real \<Rightarrow> int" where
  "round_even x =
     (let n = \<lfloor>x\<rfloor>; d = x - of_int n
      in if d < 1 / 2 then n else if 1 / 2 < d then n + 1 else if even n then n else n + 1)"

definition fl :: "real \<Rightarrow> real" where
  "fl x =
     (if x = 0 then 0
      else let u = 2 powi (exponent \<bar>x\<bar> - 52) in of_int (round_even (x / u)) * u)"

definition fadd :: "real \<Rightarrow> real \<Rightarrow> real" where
  "fadd a b = fl (a + b)"

definition fsub :: "real \<Rightarrow> real \<Rightarrow> real" where
  "fsub a b = fl (a - b)"

definition fmul :: "real \<Rightarrow> real \<Rightarrow> real" where
  "fmul a b = fl (a * b)"

definition fdiv :: "real \<Rightarrow> real \<Rightarrow> real" where
  "fdiv a b = fl (a / b)"

subsection \<open>Width, height and metrics with rounded operations\<close>

text \<open>
  The same programs as \<open>getWidth\<close>, \<open>getHeight\<close> and \<open>getMetrics\<close>, operation by operation:
  \<open>(1 / unitsPerEm) * fontSize\<close> is a division and a multiplication, \<open>width += a * b\<close> a
  multiplication and an addition, \<open>(tracking / 1000) * fontSize\<close> a division and a
  multiplication, \<open>x -= width / 2\<close> a division and a subtraction.
\<close>

definition getWidth_step_fl ::
  "Font \<Rightarrow> TextToSVGOptions \<Rightarrow> real \<Rightarrow> bool option \<Rightarrow> real \<Rightarrow> Glyph list \<Rightarrow> nat \<Rightarrow> real \<Rightarrow> real"
where
  "getWidth_step_fl font options fontSz kern fontScale glyphs i width =
     (let glyph = glyphs ! i;
          w1 = (case advanceWidth glyph of
                  None \<Rightarrow> width
                | Some a \<Rightarrow> if a \<noteq> 0 then fadd width (fmul a fontScale) else width);
          w2 = (if truthy_bool kern \<and> int i < int (length glyphs) - 1
                then fadd w1 (fmul (getKerningValue font glyph (glyphs ! (i + 1))) fontScale)
                else w1);
          w3 = (case tracking options of
                  None \<Rightarrow> w2
                | Some t \<Rightarrow> if t \<noteq> 0 then fadd w2 (fmul (fdiv t 1000) fontSz) else w2)
      in case letterSpacing options of
           None \<Rightarrow> w3
         | Some ls \<Rightarrow> if ls \<noteq> 0 then fadd w2 (fmul ls fontSz) else w3)"

function getWidth_loop_fl ::
  "Font \<Rightarrow> TextToSVGOptions \<Rightarrow> real \<Rightarrow> bool option \<Rightarrow> real \<Rightarrow> Glyph list \<Rightarrow> nat \<Rightarrow> real \<Rightarrow> real"
where
  "getWidth_loop_fl font options fontSz kern fontScale glyphs i width =
     (if i < length glyphs
      then getWidth_loop_fl font options fontSz kern fontScale glyphs (i + 1)
             (getWidth_step_fl font options fontSz kern fontScale glyphs i width)
      else width)"
  by pat_completeness auto
termination
  by (relation "measure (\<lambda>(font, options, fontSz, kern, fontScale, glyphs, i, width).
        length glyphs - i)") auto

declare getWidth_loop_fl.simps [simp del]

definition getWidth_fl :: "Font \<Rightarrow> string \<Rightarrow> TextToSVGOptions \<Rightarrow> real" where
  "getWidth_fl font text options =
     (let fontSz = num_or (fontSize options) 72;
          kern = kerning_of options;
          fontScale = fmul (fdiv 1 (unitsPerEm font)) fontSz;
          glyphs = stringToGlyphs font text
      in getWidth_loop_fl font options fontSz kern fontScale glyphs 0 0)"

definition getHeight_fl :: "Font \<Rightarrow> real \<Rightarrow> real" where
  "getHeight_fl font fontSz =
     (let fontScale = fmul (fdiv 1 (unitsPerEm font)) fontSz
      in fmul (fsub (ascender font) (descender font)) fontScale)"

definition getMetrics_fl :: "Font \<Rightarrow> string \<Rightarrow> TextToSVGOptions \<Rightarrow> error + Metrics" where
  "getMetrics_fl font text options =
     (let fontSz = num_or (fontSize options) 72;
          anchr = parseAnchorOption (str_or_empty (anchor options));
          width = getWidth_fl font text options;
          height = getHeight_fl font fontSz;
          fontScale = fmul (fdiv 1 (unitsPerEm font)) fontSz;
          asc = fmul (ascender font) fontScale;
          desc = fmul (descender font) fontScale;
          x0 = num_or (opt_x options) 0;
          xr = (if horizontal anchr = ''left'' then Inr (fsub x0 0)
                else if horizontal anchr = ''center'' then Inr (fsub x0 (fdiv width 2))
                else if horizontal anchr = ''right'' then Inr (fsub x0 width)
                else Inl (Error (''Unknown anchor option: '' @ horizontal anchr)))
      in case xr of
           Inl e \<Rightarrow> Inl e
         | Inr x \<Rightarrow>
            (let y0 = num_or (opt_y options) 0;
                 yr = (if vertical anchr = ''baseline'' then Inr (fsub y0 asc)
                       else if vertical anchr = ''top'' then Inr (fsub y0 0)
                       else if vertical anchr = ''middle'' then Inr (fsub y0 (fdiv height 2))
                       else if vertical anchr = ''bottom'' then Inr (fsub y0 height)
                       else Inl (Error (''Unknown anchor option: '' @ vertical anchr)))
             in case yr of
                  Inl e \<Rightarrow> Inl e
                | Inr y \<Rightarrow>
                    Inr \<lparr>m_x = x, m_y = y, m_baseline = fadd y asc, m_width = width,
                         m_height = height, m_ascender = asc, m_descender = desc\<rparr>))"

section \<open>A concrete font and concrete options\<close>

text \<open>
  A font with 1000 units per em, ascender 800 and descender -200, whose glyphs all advance
  by 600 units. The glyph of a character is numbered by its code; the pair \<open>A\<close>, \<open>V\<close> is
  kerned by -50 units. Its outline method only records how it was called.
\<close>

definition example_glyph :: "char \<Rightarrow> Glyph" where
  "example_glyph c = \<lparr>glyph_index = of_char c, advanceWidth = Some 600\<rparr>"

definition example_kerning :: "Glyph \<Rightarrow> Glyph \<Rightarrow> real" where
  "example_kerning g1 g2 = (if glyph_index g1 = 65 \<and> glyph_index g2 = 86 then - 50 else 0)"

definition example_path :: "string \<Rightarrow> real \<Rightarrow> real \<Rightarrow> real \<Rightarrow> RenderOptions \<Rightarrow> Path" where
  "example_path t px py sz ro =
     Path ((if truthy_bool (ro_kerning ro) then ''K'' else ''N'') @ t)"

definition example_font :: Font where
  "example_font =
     \<lparr>unitsPerEm = 1000, ascender = 800, descender = - 200,
      stringToGlyphs = map example_glyph, getKerningValue = example_kerning,
      font_getPath = example_path\<rparr>"



definition no_options :: TextToSVGOptions where
  "no_options =
     \<lparr>fontSize = None, letterSpacing = None, tracking = None, kerning = None,
      anchor = None, opt_x = None, opt_y = None, attributes = None\<rparr>"

section \<open>Descriptions used in the statements\<close>

text \<open>
  The contribution of one glyph to the width, term by term: its advance, the kerning
  towards its successor, and the spacing added after every glyph.
\<close>

definition advance_px :: "Glyph \<Rightarrow> real \<Rightarrow> real" where
  "advance_px g fontScale = (case advanceWidth g of None \<Rightarrow> 0 | Some a \<Rightarrow> a * fontScale)"

definition kerning_px :: "Font \<Rightarrow> bool option \<Rightarrow> real \<Rightarrow> Glyph list \<Rightarrow> nat \<Rightarrow> real" where
  "kerning_px font kern fontScale glyphs i =
     (if truthy_bool kern \<and> i + 1 < length glyphs
      then getKerningValue font (glyphs ! i) (glyphs ! (i + 1)) * fontScale else 0)"

definition spacing_rule :: "real option \<Rightarrow> real option \<Rightarrow> real \<Rightarrow> real" where
  "spacing_rule ls tr fontSz =
     (if truthy_num ls then (case ls of None \<Rightarrow> 0 | Some l \<Rightarrow> l * fontSz)
      else if truthy_num tr then (case tr of None \<Rightarrow> 0 | Some t \<Rightarrow> (t / 1000) * fontSz)
      else 0)"

text \<open>Strings without an upper-case ASCII letter.\<close>

definition is_upper :: "char \<Rightarrow> bool" where
  "is_upper c = (65 \<le> (of_char c :: nat) \<and> (of_char c :: nat) \<le> 90)"

definition no_upper :: "string \<Rightarrow> bool" where
  "no_upper s = list_all (\<lambda>c. \<not> is_upper c) s"

text \<open>
  The anchor strings on which the \<open>switch\<close> statements of \<open>getMetrics\<close> find a case: the
  first horizontal and the first vertical match, if any, are spelled in lower case.
\<close>

definition anchor_resolves :: "string \<Rightarrow> bool" where
  "anchor_resolves s =
     (horizontal (parseAnchorOption s) \<in> set [''left'', ''center'', ''right'']
      \<and> vertical (parseAnchorOption s) \<in> set [''baseline'', ''top'', ''middle'', ''bottom''])"

text \<open>
  The terms that \<open>getWidth_fl\<close> adds, in the order in which it adds them, each with its
  kind: for the glyph at index \<open>i\<close> its advance (when truthy), then the kerning towards
  the next glyph (when kerning is enabled and the glyph is not the last), then the
  spacing of the call.
\<close>

datatype term_kind = Advance | Kerning | Spacing

definition advance_terms :: "real \<Rightarrow> Glyph \<Rightarrow> (term_kind \<times> real) list" where
  "advance_terms fontScale glyph =
     (case advanceWidth glyph of
        None \<Rightarrow> []
      | Some a \<Rightarrow> if a \<noteq> 0 then [(Advance, fmul a fontScale)] else [])"

definition kerning_terms ::
  "Font \<Rightarrow> bool option \<Rightarrow> real \<Rightarrow> Glyph list \<Rightarrow> nat \<Rightarrow> (term_kind \<times> real) list"
where
  "kerning_terms font kern fontScale glyphs i =
     (if truthy_bool kern \<and> i + 1 < length glyphs
      then [(Kerning, fmul (getKerningValue font (glyphs ! i) (glyphs ! (i + 1))) fontScale)]
      else [])"

definition spacing_terms :: "real option \<Rightarrow> real option \<Rightarrow> real \<Rightarrow> (term_kind \<times> real) list" where
  "spacing_terms ls tr fontSz =
     (if truthy_num ls
      then (case ls of None \<Rightarrow> [] | Some l \<Rightarrow> [(Spacing, fmul l fontSz)])
      else if truthy_num tr
      then (case tr of None \<Rightarrow> [] | Some t \<Rightarrow> [(Spacing, fmul (fdiv t 1000) fontSz)])
      else [])"

definition width_terms_at ::
  "Font \<Rightarrow> TextToSVGOptions \<Rightarrow> real \<Rightarrow> bool option \<Rightarrow> real \<Rightarrow> Glyph list \<Rightarrow> nat
     \<Rightarrow> (term_kind \<times> real) list"
where
  "width_terms_at font options fontSz kern fontScale glyphs i =
     advance_terms fontScale (glyphs ! i)
     @ kerning_terms font kern fontScale glyphs i
     @ spacing_terms (letterSpacing options) (tracking options) fontSz"

definition width_terms :: "Font \<Rightarrow> string \<Rightarrow> TextToSVGOptions \<Rightarrow> (term_kind \<times> real) list" where
  "width_terms font text options =
     concat (map (width_terms_at font options (num_or (fontSize options) 72) (kerning_of options)
                    (fmul (fdiv 1 (unitsPerEm font)) (num_or (fontSize options) 72))
                    (stringToGlyphs font text))
               [0..<length (stringToGlyphs font text)])"

section \<open>The width as a sum\<close>

lemma int_index_less: "(int i < int n - 1) = (i + 1 < n)"
  by linarith

lemma getWidth_step_eq:
  "getWidth_step font options fontSz kern fontScale glyphs i w =
     w + advance_px (glyphs ! i) fontScale + kerning_px font kern fontScale glyphs i
       + spacing_rule (letterSpacing options) (tracking options) fontSz"
  by (auto simp add: getWidth_step_def advance_px_def kerning_px_def spacing_rule_def
      truthy_num_def Let_def int_index_less split: option.splits)

lemma getWidth_loop_eq:
  "getWidth_loop font options fontSz kern fontScale glyphs i w =
     w + (\<Sum>k = i..<length glyphs. advance_px (glyphs ! k) fontScale
            + kerning_px font kern fontScale glyphs k
            + spacing_rule (letterSpacing options) (tracking options) fontSz)"
proof (induction font options fontSz kern fontScale glyphs i w rule: getWidth_loop.induct)
  case (1 font options fontSz kern fontScale glyphs i width)
  show ?case
  proof (cases "i < length glyphs")
    case True
    then show ?thesis
      using "1.IH" [OF True]
      by (subst getWidth_loop.simps) (simp add: getWidth_step_eq sum.atLeast_Suc_lessThan)
  next
    case False
    then show ?thesis by (subst getWidth_loop.simps) simp
  qed
qed

lemma getWidth_sum:
  "getWidth font text options =
     (\<Sum>k < length (stringToGlyphs font text).
        advance_px (stringToGlyphs font text ! k) ((1 / unitsPerEm font) * num_or (fontSize options) 72)
      + kerning_px font (kerning_of options) ((1 / unitsPerEm font) * num_or (fontSize options) 72)
          (stringToGlyphs font text) k
      + spacing_rule (letterSpacing options) (tracking options) (num_or (fontSize options) 72))"
  by (simp add: getWidth_def getWidth_loop_eq Let_def atLeast0LessThan)

lemma kerning_sum:
  "(\<Sum>k < (n::nat). if k + 1 < n then f k else (0::real)) = (\<Sum>k < n - 1. f k)"
proof -
  have "{..<n} \<inter> {k. k + 1 < n} = {..<n - 1}" by auto
  then show ?thesis by (simp add: sum.If_cases)
qed

lemma getWidth_kerning_difference:
  "getWidth font text (options\<lparr>kerning := Some (Some True)\<rparr>)
     - getWidth font text (options\<lparr>kerning := Some (Some False)\<rparr>)
   = (\<Sum>i < length (stringToGlyphs font text) - 1.
        getKerningValue font (stringToGlyphs font text ! i) (stringToGlyphs font text ! (i + 1)))
     * (num_or (fontSize options) 72 / unitsPerEm font)"
proof -
  define gs where "gs = stringToGlyphs font text"
  define sc where "sc = (1 / unitsPerEm font) * num_or (fontSize options) 72"
  have "getWidth font text (options\<lparr>kerning := Some (Some True)\<rparr>)
     - getWidth font text (options\<lparr>kerning := Some (Some False)\<rparr>)
    = (\<Sum>k < length gs. kerning_px font (Some True) sc gs k)"
    by (simp add: getWidth_sum kerning_of_def kerning_px_def truthy_bool_def gs_def sc_def
        sum.distrib)
  also have "\<dots> = (\<Sum>k < length gs. if k + 1 < length gs
       then getKerningValue font (gs ! k) (gs ! (k + 1)) * sc else 0)"
    by (simp add: kerning_px_def truthy_bool_def)
  also have "\<dots> = (\<Sum>k < length gs - 1. getKerningValue font (gs ! k) (gs ! (k + 1)) * sc)"
    by (rule kerning_sum)
  also have "\<dots> = (\<Sum>k < length gs - 1. getKerningValue font (gs ! k) (gs ! (k + 1))) * sc"
    by (simp add: sum_distrib_right)
  finally show ?thesis by (simp add: gs_def sc_def)
qed

section \<open>Anchors without upper-case letters\<close>

lemma of_char_canonicalize:
  "(of_char (canonicalize c) :: nat) =
     (if 97 \<le> (of_char c :: nat) \<and> (of_char c :: nat) \<le> 122 then of_char c - 32 else of_char c)"
proof -
  have "(of_char c :: nat) - 32 < 256"
    using of_char_mod_256 [of c, where ?'a = nat]
    by (metis less_imp_diff_less mod_less_divisor zero_less_numeral)
  then show ?thesis by (simp add: canonicalize_def Let_def)
qed

lemma fold_inj_arith:
  "\<not> (65 \<le> n \<and> n \<le> (90::nat)) \<Longrightarrow> \<not> (65 \<le> k \<and> k \<le> (90::nat)) \<Longrightarrow>
   (if 97 \<le> n \<and> n \<le> 122 then n - 32 else n) = (if 97 \<le> k \<and> k \<le> 122 then k - 32 else k) \<Longrightarrow>
   n = k"
  by (simp split: if_splits; arith)

lemma canonicalize_inj:
  assumes "\<not> is_upper c" "\<not> is_upper d" "canonicalize c = canonicalize d"
  shows "c = d"
proof -
  have "(of_char (canonicalize c) :: nat) = of_char (canonicalize d)"
    using assms(3) by (rule arg_cong)
  then have "(of_char c :: nat) = of_char d"
    unfolding of_char_canonicalize using assms(1,2) unfolding is_upper_def by (rule fold_inj_arith [rotated 2])
  then show ?thesis by (simp only: of_char_eq_iff)
qed

lemma map_canonicalize_inj:
  "no_upper u \<Longrightarrow> no_upper v \<Longrightarrow> map canonicalize u = map canonicalize v \<Longrightarrow> u = v"
proof (induction u arbitrary: v)
  case Nil
  then show ?case by simp
next
  case (Cons a u)
  from Cons.prems(3) obtain b w where v: "v = b # w" by (cases v) auto
  have ab: "canonicalize a = canonicalize b" and uw: "map canonicalize u = map canonicalize w"
    using Cons.prems(3) by (simp_all add: v)
  have na: "\<not> is_upper a" and nu: "no_upper u"
    using Cons.prems(1) by (simp_all add: no_upper_def)
  have nb: "\<not> is_upper b" and nw: "no_upper w"
    using Cons.prems(2) by (simp_all add: no_upper_def v)
  have "a = b" using na nb ab by (rule canonicalize_inj)
  moreover have "u = w" using nu nw uw by (rule Cons.IH)
  ultimately show ?case by (simp add: v)
qed

lemma no_upper_take: "no_upper s \<Longrightarrow> no_upper (take n s)"
  by (auto simp: no_upper_def list_all_iff dest: in_set_takeD)

lemma no_upper_drop: "no_upper s \<Longrightarrow> no_upper (drop n s)"
  by (auto simp: no_upper_def list_all_iff dest: in_set_dropD)

lemma first_alt_lower:
  "no_upper s \<Longrightarrow> list_all no_upper alts \<Longrightarrow> first_alt alts s = Some m \<Longrightarrow> m \<in> set alts"
proof (induction alts)
  case Nil
  then show ?case by simp
next
  case (Cons kw kws)
  show ?case
  proof (cases "match_ci kw s")
    case True
    then have "map canonicalize (take (length kw) s) = map canonicalize kw"
      by (simp add: match_ci_def)
    moreover have "no_upper (take (length kw) s)"
      using Cons.prems(1) by (rule no_upper_take)
    moreover have "no_upper kw"
      using Cons.prems(2) by simp
    ultimately have "take (length kw) s = kw"
      by (rule map_canonicalize_inj [rotated 2])
    with True Cons.prems(3) show ?thesis by simp
  next
    case False
    with Cons show ?thesis by simp
  qed
qed

lemma match_all_lower:
  "no_upper s \<Longrightarrow> list_all no_upper alts \<Longrightarrow> set (match_all alts s) \<subseteq> set alts"
proof (induction alts s rule: match_all.induct)
  case (1 alts)
  then show ?case by simp
next
  case (2 alts c cs)
  show ?case
  proof (cases "first_alt alts (c # cs)")
    case None
    moreover have "no_upper cs" using "2.prems"(1) by (simp add: no_upper_def)
    ultimately show ?thesis using "2.IH"(1) "2.prems"(2) by simp
  next
    case (Some m)
    have "m \<in> set alts" using first_alt_lower [OF "2.prems" Some] .
    moreover have "no_upper (drop (max 1 (length m)) (c # cs))"
      using "2.prems"(1) by (rule no_upper_drop)
    ultimately show ?thesis using "2.IH"(2) [OF Some] "2.prems"(2) Some by simp
  qed
qed

lemma first_match_lower:
  assumes "no_upper s" "list_all no_upper alts" "d \<in> set alts"
  shows "(if length (match_all alts s) = 0 then d else match_all alts s ! 0) \<in> set alts"
proof (cases "match_all alts s")
  case Nil
  then show ?thesis using assms(3) by simp
next
  case (Cons m ms)
  then have "m \<in> set (match_all alts s)" by simp
  then show ?thesis using match_all_lower [OF assms(1,2)] Cons by auto
qed

lemma parseAnchorOption_lower:
  assumes "no_upper s"
  shows "horizontal (parseAnchorOption s) \<in> {''left'', ''center'', ''right''}"
    and "vertical (parseAnchorOption s) \<in> {''baseline'', ''top'', ''bottom'', ''middle''}"
proof -
  have h: "list_all no_upper [''left'', ''center'', ''right'']"
    by (simp add: no_upper_def is_upper_def)
  have v: "list_all no_upper [''baseline'', ''top'', ''bottom'', ''middle'']"
    by (simp add: no_upper_def is_upper_def)
  show "horizontal (parseAnchorOption s) \<in> {''left'', ''center'', ''right''}"
    using first_match_lower [OF assms h, of "''left''"]
    by (simp add: parseAnchorOption_def Let_def)
  show "vertical (parseAnchorOption s) \<in> {''baseline'', ''top'', ''bottom'', ''middle''}"
    using first_match_lower [OF assms v, of "''baseline''"]
    by (simp add: parseAnchorOption_def Let_def)
qed

section \<open>Rounding to double precision\<close>

text \<open>
  \<open>exponent\<close> is the binary exponent, so \<open>fl\<close> is decided by an exponent and an integer
  significand that are within half a unit of the argument (\<open>fl_cases\<close>); a rounded number
  is not changed by rounding it again (\<open>fl_idem\<close>).
\<close>

lemma pow2_le_real: "(2::nat) ^ j \<le> n \<Longrightarrow> (2::real) ^ j \<le> real n"
  by (metis of_nat_le_iff of_nat_numeral of_nat_power)

lemma less_pow2_real:
  assumes "n < (2::nat) ^ k"
  shows "real n + 1 \<le> 2 ^ k"
proof -
  have "Suc n \<le> 2 ^ k" using assms by simp
  then have "real (Suc n) \<le> real (2 ^ k)" by (simp only: of_nat_le_iff)
  then show ?thesis by simp
qed

lemma powi_pred: "0 < k \<Longrightarrow> (2::real) powi (int k - 1) = 2 ^ (k - 1)"
  by (cases k) (simp_all add: power_int_def)

lemma powi_neg_succ: "0 < k \<Longrightarrow> (2::real) powi (- int k + 1) = 1 / 2 ^ (k - 1)"
  by (cases k) (simp_all add: power_int_def field_simps)

lemma powi_neg: "(2::real) powi (- int k) = 1 / 2 ^ k"
  by (simp add: power_int_minus_divide)

lemma floorlog_pos: "0 < n \<Longrightarrow> n < (2::nat) ^ k \<Longrightarrow> 0 < k"
  by (cases k) auto

lemma exponent_ge_one:
  assumes "1 \<le> x"
  shows "2 powi exponent x \<le> x \<and> x < 2 powi (exponent x + 1)"
proof -
  define n where "n = nat \<lfloor>x\<rfloor>"
  define k where "k = floorlog 2 n"
  have fx: "1 \<le> \<lfloor>x\<rfloor>" using assms by (simp add: le_floor_iff)
  then have n: "0 < n" unfolding n_def by simp
  have b: "2 ^ (k - 1) \<le> n \<and> n < 2 ^ k"
    unfolding k_def using n by (intro floorlog_bounds) simp_all
  have k: "0 < k" using n b by (blast intro: floorlog_pos)
  have e: "exponent x = int k - 1"
    unfolding exponent_def k_def n_def using assms by simp
  have "real n = of_int \<lfloor>x\<rfloor>" unfolding n_def using fx by simp
  then have nx: "real n \<le> x" "x < real n + 1" by linarith+
  have lo: "(2::real) ^ (k - 1) \<le> real n" using b by (blast intro: pow2_le_real)
  have hi: "real n + 1 \<le> 2 ^ k" using b by (blast intro: less_pow2_real)
  have "2 powi (int k - 1) \<le> x" unfolding powi_pred [OF k] using lo nx(1) by linarith
  moreover have "x < 2 powi (int k - 1 + 1)" using hi nx(2) by simp
  ultimately show ?thesis unfolding e by blast
qed

lemma exponent_less_one:
  assumes "0 < x" "x < 1"
  shows "2 powi exponent x \<le> x \<and> x < 2 powi (exponent x + 1)"
proof -
  define y where "y = 1 / x"
  define c where "c = \<lceil>y\<rceil>"
  define m where "m = nat (c - 1)"
  define k where "k = floorlog 2 m"
  have y: "1 < y" using assms by (simp add: y_def)
  have cy: "y \<le> real_of_int c" "real_of_int c - 1 < y"
    unfolding c_def by linarith+
  have c: "2 \<le> c" using y cy(1) by linarith
  then have m: "0 < m" unfolding m_def by simp
  have rm: "real m = real_of_int c - 1" unfolding m_def using c by simp
  have b: "2 ^ (k - 1) \<le> m \<and> m < 2 ^ k"
    unfolding k_def using m by (intro floorlog_bounds) simp_all
  have k: "0 < k" using m b by (blast intro: floorlog_pos)
  have e: "exponent x = - int k"
    unfolding exponent_def k_def m_def c_def y_def using assms by simp
  have lo: "(2::real) ^ (k - 1) \<le> real m" using b by (blast intro: pow2_le_real)
  have hi: "real m + 1 \<le> 2 ^ k" using b by (blast intro: less_pow2_real)
  have up: "1 / x \<le> 2 ^ k" using hi cy(1) rm unfolding y_def by linarith
  have dn: "2 ^ (k - 1) < 1 / x" using lo cy(2) rm unfolding y_def by linarith
  have "1 / 2 ^ k \<le> x" using up assms(1) by (simp add: field_simps)
  moreover have "x < 1 / 2 ^ (k - 1)" using dn assms(1) by (simp add: field_simps)
  ultimately show ?thesis unfolding e powi_neg powi_neg_succ [OF k] by blast
qed

lemma exponent_bounds:
  assumes "0 < x"
  shows "2 powi exponent x \<le> x" and "x < 2 powi (exponent x + 1)"
  using exponent_ge_one [of x] exponent_less_one [OF assms] by (cases "1 \<le> x"; simp)+

lemma exponent_unique:
  assumes "0 < x" "2 powi e \<le> x" "x < 2 powi (e + 1)"
  shows "exponent x = e"
proof (rule ccontr)
  assume ne: "exponent x \<noteq> e"
  show False
  proof (cases "exponent x < e")
    case True
    then have "(2::real) powi (exponent x + 1) \<le> 2 powi e"
      by (intro power_int_increasing) simp_all
    then show False using exponent_bounds(2) [OF assms(1)] assms(2) by linarith
  next
    case False
    then have "e + 1 \<le> exponent x" using ne by simp
    then have "(2::real) powi (e + 1) \<le> 2 powi exponent x"
      by (intro power_int_increasing) simp_all
    then show False using exponent_bounds(1) [OF assms(1)] assms(3) by linarith
  qed
qed

lemma round_even_unique:
  assumes "\<bar>x - of_int n\<bar> < 1 / 2"
  shows "round_even x = n"
proof (cases "of_int n \<le> x")
  case True
  then have "x < of_int n + 1" using assms by linarith
  with True have "\<lfloor>x\<rfloor> = n" by (rule floor_unique)
  then show ?thesis using assms True by (simp add: round_even_def Let_def)
next
  case False
  have xn: "x < of_int n" "of_int n - 1 / 2 < x" using assms False by linarith+
  have "of_int (n - 1) \<le> x" "x < of_int (n - 1) + 1" using xn by simp_all
  then have f: "\<lfloor>x\<rfloor> = n - 1" by (rule floor_unique)
  have "1 / 2 < x - of_int (n - 1)" using xn by simp
  then show ?thesis using f by (simp add: round_even_def Let_def)
qed

lemma round_even_of_int: "round_even (of_int n) = n"
  by (rule round_even_unique) simp

lemma round_even_ge:
  assumes "of_int a \<le> x"
  shows "a \<le> round_even x"
proof -
  have "a \<le> \<lfloor>x\<rfloor>" using assms by (simp add: le_floor_iff)
  then show ?thesis by (auto simp add: round_even_def Let_def)
qed

lemma round_even_le:
  assumes "x \<le> of_int b"
  shows "round_even x \<le> b"
proof (cases "x = of_int b")
  case True
  then show ?thesis by (simp add: round_even_of_int)
next
  case False
  then have "x < of_int b" using assms by simp
  then have "\<lfloor>x\<rfloor> < b" by (simp add: floor_less_iff)
  then show ?thesis by (auto simp add: round_even_def Let_def)
qed

lemma fl_cases:
  assumes "2 powi e \<le> \<bar>x\<bar>" "\<bar>x\<bar> < 2 powi (e + 1)"
    and "\<bar>x / 2 powi (e - 52) - of_int n\<bar> < 1 / 2"
  shows "fl x = of_int n * 2 powi (e - 52)"
proof -
  have "0 < (2::real) powi e" by simp
  then have x: "0 < \<bar>x\<bar>" using assms(1) by linarith
  then have "exponent \<bar>x\<bar> = e" using assms(1,2) by (rule exponent_unique)
  moreover have "round_even (x / 2 powi (e - 52)) = n" using assms(3) by (rule round_even_unique)
  ultimately show ?thesis using x by (simp add: fl_def Let_def)
qed

lemma round_even_tie:
  assumes "x = of_int n + 1 / 2"
  shows "round_even x = (if even n then n else n + 1)"
proof -
  have "of_int n \<le> x" "x < of_int n + 1" using assms by simp_all
  then have "\<lfloor>x\<rfloor> = n" by (rule floor_unique)
  then show ?thesis using assms by (simp add: round_even_def Let_def)
qed

lemma fl_cases_tie:
  assumes "2 powi e \<le> \<bar>x\<bar>" "\<bar>x\<bar> < 2 powi (e + 1)"
    and "x / 2 powi (e - 52) = of_int n + 1 / 2"
  shows "fl x = of_int (if even n then n else n + 1) * 2 powi (e - 52)"
proof -
  have "0 < (2::real) powi e" by simp
  then have x: "0 < \<bar>x\<bar>" using assms(1) by linarith
  then have "exponent \<bar>x\<bar> = e" using assms(1,2) by (rule exponent_unique)
  moreover have "round_even (x / 2 powi (e - 52)) = (if even n then n else n + 1)"
    using assms(3) by (rule round_even_tie)
  ultimately show ?thesis using x by (simp add: fl_def Let_def)
qed

lemma fl_zero: "fl 0 = 0"
  by (simp add: fl_def)

lemma round_even_abs_bounds:
  assumes "of_int a \<le> \<bar>q\<bar>" "\<bar>q\<bar> \<le> of_int b" "0 < a"
  shows "a \<le> \<bar>round_even q\<bar> \<and> \<bar>round_even q\<bar> \<le> b"
proof (cases "0 \<le> q")
  case True
  then have "of_int a \<le> q" "q \<le> of_int b" using assms by simp_all
  then have "a \<le> round_even q" "round_even q \<le> b"
    by (simp_all add: round_even_ge round_even_le)
  then show ?thesis using assms(3) by simp
next
  case False
  then have "q \<le> of_int (- a)" "of_int (- b) \<le> q" using assms by simp_all
  then have "round_even q \<le> - a" "- b \<le> round_even q"
    by (simp_all only: round_even_ge round_even_le)
  then show ?thesis using assms(3) by simp
qed

lemma fl_nonzero:
  "y \<noteq> 0 \<Longrightarrow>
   fl y = of_int (round_even (y / 2 powi (exponent \<bar>y\<bar> - 52))) * 2 powi (exponent \<bar>y\<bar> - 52)"
  by (simp add: fl_def Let_def)

lemma fl_idem: "fl (fl x) = fl x"
proof (cases "x = 0")
  case True
  then show ?thesis by (simp add: fl_zero)
next
  case False
  define e where "e = exponent \<bar>x\<bar>"
  define u where "u = (2::real) powi (e - 52)"
  define r where "r = round_even (x / u)"
  have u: "0 < u" by (simp add: u_def)
  have flx: "fl x = of_int r * u"
    using False by (simp add: fl_def Let_def e_def u_def r_def)
  have pos: "0 < \<bar>x\<bar>" using False by simp
  have b: "2 powi e \<le> \<bar>x\<bar>" "\<bar>x\<bar> < 2 powi (e + 1)"
    unfolding e_def using exponent_bounds [OF pos] by simp_all
  have sp: "(2::real) powi (int k + (e - 52)) = 2 ^ k * u" for k
    unfolding u_def by (simp add: power_int_add)
  have pe: "(2::real) powi e = 2 ^ 52 * u"
    using sp [of 52] by simp
  have pe1: "(2::real) powi (e + 1) = 2 ^ 53 * u"
    using sp [of 53] by (simp add: add.commute)
  have pe2: "(2::real) powi (e + 1 + 1) = 2 ^ 54 * u"
    using sp [of 54] by (simp add: add.commute)
  have u2: "(2::real) powi (e + 1 - 52) = 2 * u"
    using sp [of 1] by (simp add: add.commute)
  have aq: "\<bar>x / u\<bar> = \<bar>x\<bar> / u" using u by simp
  have b': "2 ^ 52 * u \<le> \<bar>x\<bar>" "\<bar>x\<bar> \<le> 2 ^ 53 * u"
    using b unfolding pe pe1 by linarith+
  have q: "2 ^ 52 \<le> \<bar>x / u\<bar>" "\<bar>x / u\<bar> \<le> 2 ^ 53"
    unfolding aq using b' u by (simp_all add: field_simps)
  have ar: "2 ^ 52 \<le> \<bar>r\<bar> \<and> \<bar>r\<bar> \<le> 2 ^ 53"
    unfolding r_def using q by (intro round_even_abs_bounds) simp_all
  have abs: "\<bar>fl x\<bar> = of_int \<bar>r\<bar> * u" using u by (simp add: flx abs_mult)
  have nz: "fl x \<noteq> 0" using ar u by (auto simp add: flx)
  show ?thesis
  proof (cases "\<bar>r\<bar> < 2 ^ 53")
    case True
    have "(2::real) ^ 52 \<le> of_int \<bar>r\<bar>" using ar by (metis of_int_le_iff of_int_numeral of_int_power)
    moreover have "of_int \<bar>r\<bar> < (2::real) ^ 53"
      using True by (metis of_int_less_iff of_int_numeral of_int_power)
    ultimately have "2 powi e \<le> \<bar>fl x\<bar>" "\<bar>fl x\<bar> < 2 powi (e + 1)"
      unfolding pe pe1 abs using u by simp_all
    then have ex: "exponent \<bar>fl x\<bar> = e" using nz by (intro exponent_unique) simp_all
    have "fl (fl x) = of_int (round_even (fl x / u)) * u"
      using fl_nonzero [OF nz] unfolding ex u_def .
    also have "fl x / u = of_int r" using u by (simp add: flx)
    finally show ?thesis by (simp add: round_even_of_int flx)
  next
    case False
    then have r53: "\<bar>r\<bar> = 2 ^ 53" using ar by simp
    then have "\<bar>fl x\<bar> = 2 ^ 53 * u" by (simp add: abs)
    then have "2 powi (e + 1) \<le> \<bar>fl x\<bar>" "\<bar>fl x\<bar> < 2 powi (e + 1 + 1)"
      unfolding pe1 pe2 using u by simp_all
    then have ex: "exponent \<bar>fl x\<bar> = e + 1" using nz by (intro exponent_unique) simp_all
    have "fl (fl x) = of_int (round_even (fl x / (2 * u))) * (2 * u)"
      using fl_nonzero [OF nz] unfolding ex u2 .
    moreover have "r = 2 ^ 53 \<or> r = - (2 ^ 53)" using r53 by linarith
    then have "r = 2 * (r div 2)" by (elim disjE) simp_all
    then have "of_int r = 2 * (of_int (r div 2) :: real)"
      by (metis of_int_mult of_int_numeral)
    then have "fl x / (2 * u) = of_int (r div 2)" "of_int (r div 2) * (2 * u) = fl x"
      using u by (simp_all add: flx)
    ultimately show ?thesis by (simp add: round_even_of_int)
  qed
qed

lemma round_even_minus: "round_even (- x) = - round_even x"
proof -
  define n where "n = \<lfloor>x\<rfloor>"
  define d where "d = x - of_int n"
  have d: "0 \<le> d" "d < 1" unfolding d_def n_def by linarith+
  consider "d < 1 / 2" | "1 / 2 < d" | "d = 1 / 2" by linarith
  then show ?thesis
  proof cases
    case 1
    then have a: "round_even x = n" by (simp add: round_even_def Let_def n_def d_def)
    have "\<bar>- x - of_int (- n)\<bar> < 1 / 2" using 1 d unfolding d_def by simp
    then have "round_even (- x) = - n" by (rule round_even_unique)
    with a show ?thesis by simp
  next
    case 2
    then have a: "round_even x = n + 1" by (simp add: round_even_def Let_def n_def d_def)
    have "\<bar>- x - of_int (- (n + 1))\<bar> < 1 / 2" using 2 d unfolding d_def by simp
    then have "round_even (- x) = - (n + 1)" by (rule round_even_unique)
    with a show ?thesis by simp
  next
    case 3
    then have x: "x = of_int n + 1 / 2" unfolding d_def by simp
    then have a: "round_even x = (if even n then n else n + 1)" by (rule round_even_tie)
    have "- x = of_int (- n - 1) + 1 / 2" using x by simp
    then have "round_even (- x) = (if even (- n - 1) then - n - 1 else (- n - 1) + 1)"
      by (rule round_even_tie)
    with a show ?thesis by simp
  qed
qed

lemma fl_minus: "fl (- x) = - fl x"
  by (simp add: fl_def Let_def round_even_minus)

lemma exponent_half:
  assumes "0 < x"
  shows "exponent (x / 2) = exponent x - 1"
proof (rule exponent_unique)
  show "0 < x / 2" using assms by simp
  have p: "(2::real) powi (exponent x - 1) = 2 powi exponent x / 2"
    by (simp add: power_int_diff)
  show "2 powi (exponent x - 1) \<le> x / 2"
    unfolding p using exponent_bounds(1) [OF assms] by simp
  have q: "(2::real) powi (exponent x - 1 + 1) = 2 powi (exponent x + 1) / 2"
    by (simp add: power_int_add)
  show "x / 2 < 2 powi (exponent x - 1 + 1)"
    unfolding q using exponent_bounds(2) [OF assms] by simp
qed

lemma fl_half: "fl (x / 2) = fl x / 2"
proof (cases "x = 0")
  case True
  then show ?thesis by (simp add: fl_zero)
next
  case False
  then have a: "0 < \<bar>x\<bar>" by simp
  have e: "exponent \<bar>x / 2\<bar> = exponent \<bar>x\<bar> - 1"
    using exponent_half [OF a] by (simp add: abs_divide)
  have u: "(2::real) powi (exponent \<bar>x\<bar> - 1 - 52) = 2 powi (exponent \<bar>x\<bar> - 52) / 2"
    by (simp add: power_int_diff)
  have x2: "x / 2 \<noteq> 0" using False by simp
  show ?thesis
    unfolding fl_nonzero [OF x2] fl_nonzero [OF False] e u by simp
qed

section \<open>The parser on the anchors of the claims\<close>

lemma parse_LEFT: "parseAnchorOption ''LEFT'' = \<lparr>horizontal = ''LEFT'', vertical = ''baseline''\<rparr>"
  by code_simp

lemma parse_left: "parseAnchorOption ''left'' = \<lparr>horizontal = ''left'', vertical = ''baseline''\<rparr>"
  by code_simp

lemma parse_Center_Middle:
  "parseAnchorOption ''Center Middle'' = \<lparr>horizontal = ''Center'', vertical = ''Middle''\<rparr>"
  by code_simp

lemma parse_left_baseline:
  "parseAnchorOption ''left baseline'' = \<lparr>horizontal = ''left'', vertical = ''baseline''\<rparr>"
  by code_simp

lemma parse_center: "parseAnchorOption ''center'' = \<lparr>horizontal = ''center'', vertical = ''baseline''\<rparr>"
  by code_simp

lemma parse_right: "parseAnchorOption ''right'' = \<lparr>horizontal = ''right'', vertical = ''baseline''\<rparr>"
  by code_simp

lemma parse_top: "parseAnchorOption ''top'' = \<lparr>horizontal = ''left'', vertical = ''top''\<rparr>"
  by code_simp

lemma parse_bottom: "parseAnchorOption ''bottom'' = \<lparr>horizontal = ''left'', vertical = ''bottom''\<rparr>"
  by code_simp

lemma parse_middle: "parseAnchorOption ''middle'' = \<lparr>horizontal = ''left'', vertical = ''middle''\<rparr>"
  by code_simp

lemma parse_X_left:
  "parseAnchorOption ''X left'' = \<lparr>horizontal = ''left'', vertical = ''baseline''\<rparr>"
  by code_simp

lemma parse_empty: "parseAnchorOption [] = \<lparr>horizontal = ''left'', vertical = ''baseline''\<rparr>"
  by (simp add: parseAnchorOption_def)

lemma example_glyphs_AV:
  "stringToGlyphs example_font ''AV''
     = [\<lparr>glyph_index = 65, advanceWidth = Some 600\<rparr>, \<lparr>glyph_index = 86, advanceWidth = Some 600\<rparr>]"
  by (simp add: example_font_def example_glyph_def)

section \<open>Fields of the options that the results depend on\<close>

lemma example_font_positive: "0 < unitsPerEm example_font"
  by (simp add: example_font_def)

lemma example_kerning_AV:
  "getKerningValue example_font (example_glyph CHR ''A'') (example_glyph CHR ''V'') = - 50"
  by (simp add: example_font_def example_kerning_def example_glyph_def)

lemma example_font_simps:
  "unitsPerEm example_font = 1000" "ascender example_font = 800"
  "descender example_font = - 200" "stringToGlyphs example_font = map example_glyph"
  "getKerningValue example_font = example_kerning" "font_getPath example_font = example_path"
  by (simp_all add: example_font_def)

lemma no_options_simps:
  "fontSize no_options = None" "letterSpacing no_options = None" "tracking no_options = None"
  "kerning no_options = None" "anchor no_options = None" "opt_x no_options = None"
  "opt_y no_options = None" "attributes no_options = None"
  by (simp_all add: no_options_def)

lemma getWidth_fields:
  assumes "fontSize o1 = fontSize o2" "letterSpacing o1 = letterSpacing o2"
    "tracking o1 = tracking o2" "truthy_bool (kerning_of o1) = truthy_bool (kerning_of o2)"
  shows "getWidth font text o1 = getWidth font text o2"
  using assms by (simp add: getWidth_sum kerning_px_def)

lemma getWidth_anchor_origin:
  "getWidth font text (options\<lparr>anchor := a, opt_x := px, opt_y := py\<rparr>) = getWidth font text options"
  by (rule getWidth_fields) (simp_all add: kerning_of_def)

lemma getWidth_example_A:
  "getWidth example_font ''A'' (no_options\<lparr>fontSize := Some 100, anchor := a, opt_x := px, opt_y := py\<rparr>) = 60"
  by (simp add: getWidth_sum example_font_simps no_options_simps num_or_def advance_px_def
      kerning_px_def spacing_rule_def truthy_num_def example_glyph_def)


lemma getMetrics_Inr_fields:
  assumes "getMetrics font text options = Inr m"
  shows "m_width m = getWidth font text options"
    and "m_height m = getHeight font (num_or (fontSize options) 72)"
    and "m_ascender m = ascender font * ((1 / unitsPerEm font) * num_or (fontSize options) 72)"
    and "m_descender m = descender font * ((1 / unitsPerEm font) * num_or (fontSize options) 72)"
    and "m_baseline m = m_y m + m_ascender m"
  using assms
  by (auto simp add: getMetrics_def Let_def split: if_splits)

lemma getMetrics_anchor:
  assumes "parseAnchorOption s = \<lparr>horizontal = h, vertical = v\<rparr>"
    and "h = ''left'' \<or> h = ''center'' \<or> h = ''right''"
    and "v = ''baseline'' \<or> v = ''top'' \<or> v = ''middle'' \<or> v = ''bottom''"
  shows "\<exists>m. getMetrics font text (options\<lparr>anchor := Some s, opt_x := None, opt_y := None\<rparr>) = Inr m
     \<and> m_x m = (if h = ''left'' then 0 else if h = ''center'' then - (m_width m / 2) else - m_width m)
     \<and> m_y m = (if v = ''baseline'' then - m_ascender m else if v = ''top'' then 0
                else if v = ''middle'' then - (m_height m / 2) else - m_height m)"
  using assms(2,3)
  unfolding getMetrics_def Let_def
  by (elim disjE) (simp_all add: str_or_empty_def assms(1) num_or_def)

section \<open>The kerning flag\<close>










section \<open>No failure, empty text, font size zero\<close>

lemma anchor_resolves_lower: "no_upper s \<Longrightarrow> anchor_resolves s"
  using parseAnchorOption_lower [of s] by (auto simp add: anchor_resolves_def)

lemma getMetrics_resolves:
  assumes "anchor_resolves (str_or_empty (anchor options))"
  shows "\<exists>m. getMetrics font text options = Inr m"
proof -
  define a where "a = parseAnchorOption (str_or_empty (anchor options))"
  have h: "horizontal a = ''left'' \<or> horizontal a = ''center'' \<or> horizontal a = ''right''"
    using assms by (auto simp add: anchor_resolves_def a_def)
  have v: "vertical a = ''baseline'' \<or> vertical a = ''top'' \<or> vertical a = ''middle''
      \<or> vertical a = ''bottom''"
    using assms by (auto simp add: anchor_resolves_def a_def)
  from h v show ?thesis
    unfolding getMetrics_def Let_def a_def [symmetric]
    by (elim disjE) simp_all
qed

lemma getD_resolves:
  assumes "anchor_resolves (str_or_empty (anchor options))"
  shows "\<exists>d. getD font text options = Inr d"
proof -
  obtain m where "getMetrics font text options = Inr m"
    using getMetrics_resolves [OF assms] by blast
  then show ?thesis by (simp add: getD_def Let_def)
qed

lemma getPath_resolves:
  assumes "anchor_resolves (str_or_empty (anchor options))"
  shows "\<exists>p. getPath numToString font text options = Inr p"
proof -
  obtain d where "getD font text options = Inr d"
    using getD_resolves [OF assms] by blast
  then show ?thesis by (simp add: getPath_def Let_def)
qed

lemma getSVG_resolves:
  assumes "anchor_resolves (str_or_empty (anchor options))"
  shows "\<exists>p. getPath numToString font text options = Inr p
     \<and> getSVG numToString font text options
       = Inr (svg_open (numToString (getWidth font text options))
                (numToString (getHeight font (num_or (fontSize options) 72))) @ p @ ''</svg>'')"
proof -
  obtain m where m: "getMetrics font text options = Inr m"
    using getMetrics_resolves [OF assms] by blast
  obtain p where p: "getPath numToString font text options = Inr p"
    using getPath_resolves [OF assms] by blast
  show ?thesis
    by (simp add: getSVG_def Let_def m p getMetrics_Inr_fields(1,2) [OF m])
qed

lemma getWidth_no_glyphs:
  "stringToGlyphs font text = [] \<Longrightarrow> getWidth font text options = 0"
  by (simp add: getWidth_sum)

lemma getWidth_fontSize_zero:
  "getWidth font text (options\<lparr>fontSize := Some 0\<rparr>)
     = getWidth font text (options\<lparr>fontSize := Some 72\<rparr>)"
  by (simp add: getWidth_sum num_or_def kerning_of_def)

lemma getMetrics_fontSize_zero:
  "getMetrics font text (options\<lparr>fontSize := Some 0\<rparr>)
     = getMetrics font text (options\<lparr>fontSize := Some 72\<rparr>)"
  by (simp add: getMetrics_def Let_def getWidth_fontSize_zero num_or_def)

lemma getD_fontSize_zero:
  "getD font text (options\<lparr>fontSize := Some 0\<rparr>)
     = getD font text (options\<lparr>fontSize := Some 72\<rparr>)"
  by (simp add: getD_def Let_def getMetrics_fontSize_zero num_or_def kerning_of_def)

lemma getPath_fontSize_zero:
  "getPath numToString font text (options\<lparr>fontSize := Some 0\<rparr>)
     = getPath numToString font text (options\<lparr>fontSize := Some 72\<rparr>)"
  by (simp add: getPath_def Let_def getD_fontSize_zero)

lemma getSVG_fontSize_zero:
  "getSVG numToString font text (options\<lparr>fontSize := Some 0\<rparr>)
     = getSVG numToString font text (options\<lparr>fontSize := Some 72\<rparr>)"
  by (simp add: getSVG_def Let_def getMetrics_fontSize_zero getPath_fontSize_zero
      cong: sum.case_cong)

lemma getWidth_example_A_zero:
  "getWidth example_font ''A'' (no_options\<lparr>fontSize := Some 0\<rparr>) = 216 / 5"
  by (simp add: getWidth_sum example_font_simps no_options_simps num_or_def advance_px_def
      kerning_px_def spacing_rule_def truthy_num_def example_glyph_def)

section \<open>The width in double precision, term by term\<close>

lemma getWidth_step_fl_terms:
  "getWidth_step_fl font options fontSz kern fontScale glyphs i w =
     foldl fadd w (map snd (width_terms_at font options fontSz kern fontScale glyphs i))"
  by (auto simp add: getWidth_step_fl_def width_terms_at_def advance_terms_def
      kerning_terms_def spacing_terms_def Let_def truthy_num_def int_index_less
      split: option.splits)

lemma getWidth_loop_fl_terms:
  "getWidth_loop_fl font options fontSz kern fontScale glyphs i w =
     foldl fadd w (map snd (concat (map (width_terms_at font options fontSz kern fontScale glyphs)
        [i..<length glyphs])))"
proof (induction font options fontSz kern fontScale glyphs i w rule: getWidth_loop_fl.induct)
  case (1 font options fontSz kern fontScale glyphs i width)
  show ?case
  proof (cases "i < length glyphs")
    case True
    then have u: "[i..<length glyphs] = i # [i + 1..<length glyphs]"
      by (simp add: upt_conv_Cons)
    show ?thesis
      using "1.IH" [OF True] True
      by (subst getWidth_loop_fl.simps) (simp add: u getWidth_step_fl_terms)
  next
    case False
    then show ?thesis by (subst getWidth_loop_fl.simps) simp
  qed
qed

lemma getWidth_fl_terms:
  "getWidth_fl font text options = foldl fadd 0 (map snd (width_terms font text options))"
  by (simp add: getWidth_fl_def width_terms_def Let_def getWidth_loop_fl_terms)

lemma filter_concat_map: "filter P (concat (map f xs)) = concat (map (\<lambda>x. filter P (f x)) xs)"
  by (induction xs) simp_all

lemma filter_advance_terms:
  "filter (\<lambda>t. fst t \<noteq> Kerning) (advance_terms fontScale glyph) = advance_terms fontScale glyph"
  "filter (\<lambda>t. fst t = Kerning) (advance_terms fontScale glyph) = []"
  by (simp_all add: advance_terms_def split: option.splits)

lemma filter_spacing_terms:
  "filter (\<lambda>t. fst t \<noteq> Kerning) (spacing_terms ls tr fontSz) = spacing_terms ls tr fontSz"
  "filter (\<lambda>t. fst t = Kerning) (spacing_terms ls tr fontSz) = []"
  unfolding spacing_terms_def
  by (cases "truthy_num ls"; cases "truthy_num tr"; cases ls; cases tr; simp)+

lemma filter_kerning_terms:
  "filter (\<lambda>t. fst t \<noteq> Kerning) (kerning_terms font kern fontScale glyphs i) = []"
  "filter (\<lambda>t. fst t = Kerning) (kerning_terms font kern fontScale glyphs i)
     = kerning_terms font kern fontScale glyphs i"
  "kerning_terms font (Some False) fontScale glyphs i = []"
  by (simp_all add: kerning_terms_def truthy_bool_def)

lemma width_terms_at_no_kerning:
  "filter (\<lambda>t. fst t \<noteq> Kerning) (width_terms_at font options fontSz kern fontScale glyphs i)
     = width_terms_at font options fontSz (Some False) fontScale glyphs i"
  by (simp add: width_terms_at_def filter_advance_terms filter_spacing_terms
      filter_kerning_terms)

lemma width_terms_at_cong:
  assumes "letterSpacing o1 = letterSpacing o2" "tracking o1 = tracking o2"
  shows "width_terms_at font o1 fontSz kern fontScale glyphs
       = width_terms_at font o2 fontSz kern fontScale glyphs"
  using assms by (intro ext) (simp add: width_terms_at_def)

lemma width_terms_at_kerning:
  "filter (\<lambda>t. fst t = Kerning) (width_terms_at font options fontSz (Some True) fontScale glyphs i)
     = (if i + 1 < length glyphs
        then [(Kerning, fmul (getKerningValue font (glyphs ! i) (glyphs ! (i + 1))) fontScale)]
        else [])"
  by (simp add: width_terms_at_def filter_advance_terms filter_spacing_terms
      filter_kerning_terms) (simp add: kerning_terms_def truthy_bool_def)

lemma concat_if_upt:
  "concat (map (\<lambda>i. if Suc i < n then [f i] else []) [0..<n]) = map f [0..<n - Suc 0]"
proof -
  have "concat (map (\<lambda>i. if Suc i < n then [f i] else []) xs) = map f (filter (\<lambda>i. Suc i < n) xs)"
    for xs :: "nat list"
    by (induction xs) simp_all
  moreover have "filter (\<lambda>i. Suc i < n) [0..<n] = [0..<n - Suc 0]"
  proof (cases n)
    case 0
    then show ?thesis by simp
  next
    case (Suc k)
    have "filter (\<lambda>i. i < k) [0..<k] = [0..<k]" by (simp add: filter_id_conv)
    then show ?thesis using Suc by simp
  qed
  ultimately show ?thesis by simp
qed

lemma width_terms_no_kerning:
  "width_terms font text (options\<lparr>kerning := Some (Some False)\<rparr>)
     = filter (\<lambda>t. fst t \<noteq> Kerning) (width_terms font text (options\<lparr>kerning := Some (Some True)\<rparr>))"
  by (simp add: width_terms_def filter_concat_map width_terms_at_no_kerning kerning_of_def
      width_terms_at_cong [of "options\<lparr>kerning := Some (Some False)\<rparr>"
        "options\<lparr>kerning := Some (Some True)\<rparr>"])

lemma width_terms_kerning:
  "filter (\<lambda>t. fst t = Kerning) (width_terms font text (options\<lparr>kerning := Some (Some True)\<rparr>))
     = map (\<lambda>i. (Kerning, fmul (getKerningValue font (stringToGlyphs font text ! i)
                                 (stringToGlyphs font text ! (i + 1)))
                            (fmul (fdiv 1 (unitsPerEm font)) (num_or (fontSize options) 72))))
         [0..<length (stringToGlyphs font text) - 1]"
  by (simp add: width_terms_def filter_concat_map width_terms_at_kerning kerning_of_def
      concat_if_upt)

lemma getWidth_step_fl_zero_kerning:
  assumes "fl w = w"
  shows "getWidth_step_fl font options fontSz (Some False) fontScale glyphs i w
       = getWidth_step_fl (font\<lparr>getKerningValue := \<lambda>g1 g2. 0\<rparr>) options fontSz (Some True)
           fontScale glyphs i w"
    and "fl (getWidth_step_fl font options fontSz (Some False) fontScale glyphs i w)
       = getWidth_step_fl font options fontSz (Some False) fontScale glyphs i w"
  using assms
  by (simp_all add: getWidth_step_fl_def Let_def truthy_bool_def fadd_def fmul_def fl_zero
      fl_idem split: option.splits)

lemma getWidth_loop_fl_zero_kerning:
  assumes "fl w = w"
  shows "getWidth_loop_fl font options fontSz (Some False) fontScale glyphs i w
       = getWidth_loop_fl (font\<lparr>getKerningValue := \<lambda>g1 g2. 0\<rparr>) options fontSz (Some True)
           fontScale glyphs i w"
  using assms
proof (induction font options fontSz "Some False" fontScale glyphs i w
    rule: getWidth_loop_fl.induct)
  case (1 font options fontSz fontScale glyphs i width)
  show ?case
  proof (cases "i < length glyphs")
    case True
    show ?thesis
      using "1.hyps" [OF True getWidth_step_fl_zero_kerning(2) [OF "1.prems"]] True
        getWidth_step_fl_zero_kerning(1) [OF "1.prems"]
      by (subst getWidth_loop_fl.simps, subst (2) getWidth_loop_fl.simps) simp
  next
    case False
    then show ?thesis
      by (subst getWidth_loop_fl.simps, subst (2) getWidth_loop_fl.simps) simp
  qed
qed

lemma getWidth_loop_fl_options:
  assumes "letterSpacing o1 = letterSpacing o2" "tracking o1 = tracking o2"
  shows "getWidth_loop_fl font o1 fontSz kern fontScale glyphs i w
       = getWidth_loop_fl font o2 fontSz kern fontScale glyphs i w"
  by (simp add: getWidth_loop_fl_terms width_terms_at_cong [OF assms])

lemma getWidth_fl_zero_kerning:
  "getWidth_fl font text (options\<lparr>kerning := Some (Some False)\<rparr>)
     = getWidth_fl (font\<lparr>getKerningValue := \<lambda>g1 g2. 0\<rparr>) text
         (options\<lparr>kerning := Some (Some True)\<rparr>)"
proof -
  define fs where "fs = num_or (fontSize options) 72"
  define sc where "sc = fmul (fdiv 1 (unitsPerEm font)) fs"
  define gs where "gs = stringToGlyphs font text"
  have "getWidth_fl font text (options\<lparr>kerning := Some (Some False)\<rparr>)
      = getWidth_loop_fl font (options\<lparr>kerning := Some (Some False)\<rparr>) fs (Some False) sc gs 0 0"
    by (simp add: getWidth_fl_def Let_def kerning_of_def fs_def sc_def gs_def)
  also have "\<dots> = getWidth_loop_fl font (options\<lparr>kerning := Some (Some True)\<rparr>) fs (Some False)
      sc gs 0 0"
    by (rule getWidth_loop_fl_options) simp_all
  also have "\<dots> = getWidth_loop_fl (font\<lparr>getKerningValue := \<lambda>g1 g2. 0\<rparr>)
      (options\<lparr>kerning := Some (Some True)\<rparr>) fs (Some True) sc gs 0 0"
    by (rule getWidth_loop_fl_zero_kerning) (rule fl_zero)
  also have "\<dots> = getWidth_fl (font\<lparr>getKerningValue := \<lambda>g1 g2. 0\<rparr>) text
         (options\<lparr>kerning := Some (Some True)\<rparr>)"
    by (simp add: getWidth_fl_def Let_def kerning_of_def fs_def sc_def gs_def)
  finally show ?thesis .
qed

lemma getWidth_fl_fields:
  assumes "fontSize o1 = fontSize o2" "letterSpacing o1 = letterSpacing o2"
    "tracking o1 = tracking o2" "kerning_of o1 = kerning_of o2"
  shows "getWidth_fl font text o1 = getWidth_fl font text o2"
  using assms
  by (simp add: getWidth_fl_terms width_terms_def width_terms_at_cong [of o1 o2])

lemma getMetrics_fl_Inr_fields:
  assumes "getMetrics_fl font text options = Inr m"
  shows "m_width m = getWidth_fl font text options"
    and "m_height m = getHeight_fl font (num_or (fontSize options) 72)"
    and "m_ascender m
       = fmul (ascender font) (fmul (fdiv 1 (unitsPerEm font)) (num_or (fontSize options) 72))"
    and "m_descender m
       = fmul (descender font) (fmul (fdiv 1 (unitsPerEm font)) (num_or (fontSize options) 72))"
    and "m_baseline m = fadd (m_y m) (m_ascender m)"
  using assms
  by (auto simp add: getMetrics_fl_def Let_def split: if_splits)

lemma foldl_fadd_fl: "fl (foldl fadd 0 xs) = foldl fadd 0 xs"
proof (cases xs rule: rev_cases)
  case Nil
  then show ?thesis by (simp add: fl_zero)
next
  case (snoc ys y)
  then show ?thesis by (simp add: fadd_def fl_idem)
qed

lemma getWidth_fl_fl: "fl (getWidth_fl font text options) = getWidth_fl font text options"
  unfolding getWidth_fl_terms by (rule foldl_fadd_fl)

lemma fsub_zero_fl: "fl w = w \<Longrightarrow> fsub 0 w = - w"
  by (simp add: fsub_def fl_minus)

lemma fsub_zero_half: "fl w = w \<Longrightarrow> fsub 0 (fdiv w 2) = - (w / 2)"
  by (simp add: fsub_def fdiv_def fl_minus fl_half fl_idem)

lemma getHeight_fl_fl: "fl (getHeight_fl font s) = getHeight_fl font s"
  by (simp add: getHeight_fl_def fmul_def fl_idem)

lemma fmul_fl: "fl (fmul a b) = fmul a b"
  by (simp add: fmul_def fl_idem)

lemma width_terms_at_truthy:
  assumes "letterSpacing o1 = letterSpacing o2" "tracking o1 = tracking o2"
    "truthy_bool k1 = truthy_bool k2"
  shows "width_terms_at font o1 fontSz k1 fontScale glyphs
       = width_terms_at font o2 fontSz k2 fontScale glyphs"
  using assms by (intro ext) (simp add: width_terms_at_def kerning_terms_def)

lemma getWidth_fl_truthy_fields:
  assumes "num_or (fontSize o1) 72 = num_or (fontSize o2) 72"
    "letterSpacing o1 = letterSpacing o2" "tracking o1 = tracking o2"
    "truthy_bool (kerning_of o1) = truthy_bool (kerning_of o2)"
  shows "getWidth_fl font text o1 = getWidth_fl font text o2"
  using assms
  by (simp add: getWidth_fl_terms width_terms_def
      width_terms_at_truthy [of o1 o2 "kerning_of o1" "kerning_of o2"])

lemma getWidth_fl_anchor_origin:
  "getWidth_fl font text (options\<lparr>anchor := a, opt_x := px, opt_y := py\<rparr>)
     = getWidth_fl font text options"
  by (rule getWidth_fl_truthy_fields) (simp_all add: kerning_of_def)



lemma getWidth_fl_no_glyphs:
  "stringToGlyphs font text = [] \<Longrightarrow> getWidth_fl font text options = 0"
  by (simp add: getWidth_fl_terms width_terms_def)

lemma getWidth_fl_fontSize_zero:
  "getWidth_fl font text (options\<lparr>fontSize := Some 0\<rparr>)
     = getWidth_fl font text (options\<lparr>fontSize := Some 72\<rparr>)"
  by (rule getWidth_fl_truthy_fields) (simp_all add: kerning_of_def num_or_def)

lemma getMetrics_fl_fontSize_zero:
  "getMetrics_fl font text (options\<lparr>fontSize := Some 0\<rparr>)
     = getMetrics_fl font text (options\<lparr>fontSize := Some 72\<rparr>)"
  by (simp add: getMetrics_fl_def Let_def getWidth_fl_fontSize_zero num_or_def)

lemma getMetrics_fl_resolves:
  assumes "anchor_resolves (str_or_empty (anchor options))"
  shows "\<exists>m. getMetrics_fl font text options = Inr m"
proof -
  define a where "a = parseAnchorOption (str_or_empty (anchor options))"
  have h: "horizontal a = ''left'' \<or> horizontal a = ''center'' \<or> horizontal a = ''right''"
    using assms by (auto simp add: anchor_resolves_def a_def)
  have v: "vertical a = ''baseline'' \<or> vertical a = ''top'' \<or> vertical a = ''middle''
      \<or> vertical a = ''bottom''"
    using assms by (auto simp add: anchor_resolves_def a_def)
  from h v show ?thesis
    unfolding getMetrics_fl_def Let_def a_def [symmetric]
    by (elim disjE) simp_all
qed

lemma num_or_None: "num_or None d = d"
  by (simp add: num_or_def)

lemma fl_origin:
  "fsub 0 0 = 0"
  "fsub 0 (fdiv (getWidth_fl font text options) 2) = - (getWidth_fl font text options / 2)"
  "fsub 0 (getWidth_fl font text options) = - getWidth_fl font text options"
  "fsub 0 (fdiv (getHeight_fl font s) 2) = - (getHeight_fl font s / 2)"
  "fsub 0 (getHeight_fl font s) = - getHeight_fl font s"
  "fsub 0 (fmul a b) = - fmul a b"
  "fadd (- fmul a b) (fmul a b) = 0"
  "fadd 0 (fmul a b) = fmul a b"
  by (simp_all add: fsub_zero_half [OF getWidth_fl_fl] fsub_zero_fl [OF getWidth_fl_fl]
      fsub_zero_half [OF getHeight_fl_fl] fsub_zero_fl [OF getHeight_fl_fl]
      fsub_zero_fl [OF fmul_fl] fadd_def fmul_fl fl_zero)
    (simp add: fsub_def fl_zero)

lemma getMetrics_fl_Inr_exact:
  assumes "getMetrics_fl font text options = Inr m"
  shows "\<exists>mr. getMetrics font text options = Inr mr"
  using assms
  by (auto simp add: getMetrics_fl_def getMetrics_def Let_def split: if_splits)

section \<open>Double-precision values on the concrete font\<close>

text \<open>
  The roundings that occur when the concrete font measures \<open>A\<close> at font size 7 and
  \<open>AV\<close> at the default font size 72, each decided by \<open>fl_cases\<close> or \<open>fl_cases_tie\<close>.
\<close>

lemma fl_num_1: "fl (1 / 1000) = 1152921504606847 / 1152921504606846976"
proof -
  have "fl (1 / 1000) = of_int 4611686018427388 * 2 powi ((- 10) - 52)"
    by (rule fl_cases) simp_all
  then show ?thesis by simp
qed

lemma fl_num_2: "fl (8070450532247929 / 1152921504606846976) = 8070450532247929 / 1152921504606846976"
proof -
  have "fl (8070450532247929 / 1152921504606846976) = of_int 8070450532247929 * 2 powi ((- 8) - 52)"
    by (rule fl_cases) simp_all
  then show ?thesis by simp
qed

lemma fl_num_3: "fl (605283789918594675 / 144115188075855872) = 4728779608739021 / 1125899906842624"
proof -
  have "fl (605283789918594675 / 144115188075855872) = of_int 4728779608739021 * 2 powi (2 - 52)"
    by (rule fl_cases) simp_all
  then show ?thesis by simp
qed

lemma fl_num_4: "fl (4728779608739021 / 1125899906842624) = 4728779608739021 / 1125899906842624"
proof -
  have "fl (4728779608739021 / 1125899906842624) = of_int 4728779608739021 * 2 powi (2 - 52)"
    by (rule fl_cases) simp_all
  then show ?thesis by simp
qed

lemma fl_num_5: "fl 1000 = 1000"
proof -
  have "fl 1000 = of_int 8796093022208000 * 2 powi (9 - 52)"
    by (rule fl_cases) simp_all
  then show ?thesis by simp
qed

lemma fl_num_6: "fl (1008806316530991125 / 144115188075855872) = 7"
proof -
  have "fl (1008806316530991125 / 144115188075855872) = of_int 7881299347898368 * 2 powi (2 - 52)"
    by (rule fl_cases) simp_all
  then show ?thesis by simp
qed

lemma fl_num_7: "fl (201761263306198225 / 36028797018963968) = 6305039478318695 / 1125899906842624"
proof -
  have "fl (201761263306198225 / 36028797018963968) = of_int 6305039478318695 * 2 powi (2 - 52)"
    by (rule fl_cases) simp_all
  then show ?thesis by simp
qed

lemma fl_num_8: "fl (- (201761263306198225 / 144115188075855872)) = - (6305039478318695 / 4503599627370496)"
proof -
  have "fl (- (201761263306198225 / 144115188075855872)) = of_int (- 6305039478318695) * 2 powi (0 - 52)"
    by (rule fl_cases) simp_all
  then show ?thesis by simp
qed

lemma fl_num_9: "fl (- (6305039478318695 / 1125899906842624)) = - (6305039478318695 / 1125899906842624)"
proof -
  have "fl (- (6305039478318695 / 1125899906842624)) = of_int (- 6305039478318695) * 2 powi (2 - 52)"
    by (rule fl_cases) simp_all
  then show ?thesis by simp
qed

lemma fl_num_10: "fl (6305039478318695 / 1125899906842624) = 6305039478318695 / 1125899906842624"
proof -
  have "fl (6305039478318695 / 1125899906842624) = of_int 6305039478318695 * 2 powi (2 - 52)"
    by (rule fl_cases) simp_all
  then show ?thesis by simp
qed

lemma fl_num_11: "fl (31525197391593475 / 4503599627370496) = 7881299347898369 / 1125899906842624"
proof -
  have "fl (31525197391593475 / 4503599627370496) = of_int 7881299347898369 * 2 powi (2 - 52)"
    by (rule fl_cases) simp_all
  then show ?thesis by simp
qed

lemma fl_num_12: "fl (10376293541461623 / 144115188075855872) = 1297036692682703 / 18014398509481984"
proof -
  have "fl (10376293541461623 / 144115188075855872) = of_int (if even (5188146770730811::int) then 5188146770730811 else 5188146770730811 + 1) * 2 powi ((- 4) - 52)"
    by (rule fl_cases_tie) simp_all
  then show ?thesis by simp
qed

lemma fl_num_13: "fl (97277751951202725 / 2251799813685248) = 3039929748475085 / 70368744177664"
proof -
  have "fl (97277751951202725 / 2251799813685248) = of_int 6079859496950170 * 2 powi (5 - 52)"
    by (rule fl_cases) simp_all
  then show ?thesis by simp
qed

lemma fl_num_14: "fl (3039929748475085 / 70368744177664) = 3039929748475085 / 70368744177664"
proof -
  have "fl (3039929748475085 / 70368744177664) = of_int 6079859496950170 * 2 powi (5 - 52)"
    by (rule fl_cases) simp_all
  then show ?thesis by simp
qed

lemma fl_num_15: "fl (- (32425917317067575 / 9007199254740992)) = - (4053239664633447 / 1125899906842624)"
proof -
  have "fl (- (32425917317067575 / 9007199254740992)) = of_int (- 8106479329266894) * 2 powi (1 - 52)"
    by (rule fl_cases) simp_all
  then show ?thesis by simp
qed

lemma fl_num_16: "fl (44585636310967913 / 1125899906842624) = 5573204538870989 / 140737488355328"
proof -
  have "fl (44585636310967913 / 1125899906842624) = of_int 5573204538870989 * 2 powi (5 - 52)"
    by (rule fl_cases) simp_all
  then show ?thesis by simp
qed

lemma fl_num_17: "fl (11653064035821159 / 140737488355328) = 1456633004477645 / 17592186044416"
proof -
  have "fl (11653064035821159 / 140737488355328) = of_int (if even (5826532017910579::int) then 5826532017910579 else 5826532017910579 + 1) * 2 powi (6 - 52)"
    by (rule fl_cases_tie) simp_all
  then show ?thesis by simp
qed

lemma fl_num_18: "fl (3039929748475085 / 35184372088832) = 3039929748475085 / 35184372088832"
proof -
  have "fl (3039929748475085 / 35184372088832) = of_int 6079859496950170 * 2 powi (6 - 52)"
    by (rule fl_cases) simp_all
  then show ?thesis by simp
qed

lemma fl_num_19: "fl (- (126663739519795 / 35184372088832)) = - (126663739519795 / 35184372088832)"
proof -
  have "fl (- (126663739519795 / 35184372088832)) = of_int (- 8106479329266880) * 2 powi (1 - 52)"
    by (rule fl_cases) simp_all
  then show ?thesis by simp
qed

lemma fl_num_20: "fl (9 / 125) = 5188146770730811 / 72057594037927936"
proof -
  have "fl (9 / 125) = of_int 5188146770730811 * 2 powi ((- 4) - 52)"
    by (rule fl_cases) simp_all
  then show ?thesis by simp
qed

lemma fl_num_21: "fl (- (129703669268270275 / 36028797018963968)) = - (2026619832316723 / 562949953421312)"
proof -
  have "fl (- (129703669268270275 / 36028797018963968)) = of_int (- 8106479329266892) * 2 powi (1 - 52)"
    by (rule fl_cases) simp_all
  then show ?thesis by simp
qed

lemmas fl_nums = fl_num_1 fl_num_2 fl_num_3 fl_num_4 fl_num_5 fl_num_6 fl_num_7 fl_num_8 fl_num_9 fl_num_10 fl_num_11 fl_num_12 fl_num_13 fl_num_14 fl_num_15 fl_num_16 fl_num_17 fl_num_18 fl_num_19 fl_num_20 fl_num_21

lemma getWidth_fl_A_7:
  "getWidth_fl example_font ''A'' (no_options\<lparr>fontSize := Some 7, anchor := a, opt_x := px, opt_y := py\<rparr>) = 4728779608739021 / 1125899906842624"
  by (simp add: getWidth_fl_def getWidth_loop_fl.simps getWidth_step_fl_def getHeight_fl_def
      example_font_simps no_options_simps num_or_def kerning_of_def truthy_bool_def
      example_glyph_def example_kerning_def fadd_def fsub_def fmul_def fdiv_def fl_zero fl_nums)

lemma getWidth_fl_empty_7:
  "getWidth_fl example_font [] (no_options\<lparr>fontSize := Some 7\<rparr>) = 0"
  by (simp add: getWidth_fl_def getWidth_loop_fl.simps getWidth_step_fl_def getHeight_fl_def
      example_font_simps no_options_simps num_or_def kerning_of_def truthy_bool_def
      example_glyph_def example_kerning_def fadd_def fsub_def fmul_def fdiv_def fl_zero fl_nums)

lemma getWidth_fl_AV_kerning:
  "getWidth_fl example_font ''AV'' (no_options\<lparr>kerning := Some (Some True)\<rparr>) = 1456633004477645 / 17592186044416"
  by (simp add: getWidth_fl_def getWidth_loop_fl.simps getWidth_step_fl_def getHeight_fl_def
      example_font_simps no_options_simps num_or_def kerning_of_def truthy_bool_def
      example_glyph_def example_kerning_def fadd_def fsub_def fmul_def fdiv_def fl_zero fl_nums)

lemma getWidth_fl_AV_no_kerning:
  "getWidth_fl example_font ''AV'' (no_options\<lparr>kerning := Some (Some False)\<rparr>) = 3039929748475085 / 35184372088832"
  by (simp add: getWidth_fl_def getWidth_loop_fl.simps getWidth_step_fl_def getHeight_fl_def
      example_font_simps no_options_simps num_or_def kerning_of_def truthy_bool_def
      example_glyph_def example_kerning_def fadd_def fsub_def fmul_def fdiv_def fl_zero fl_nums)

lemma getMetrics_fl_A_7:
  "getMetrics_fl example_font ''A'' (no_options\<lparr>fontSize := Some 7\<rparr>)
     = Inr \<lparr>m_x = 0, m_y = - (6305039478318695 / 1125899906842624), m_baseline = 0, m_width = 4728779608739021 / 1125899906842624,
         m_height = 7, m_ascender = 6305039478318695 / 1125899906842624,
         m_descender = - (6305039478318695 / 4503599627370496)\<rparr>"
  using getWidth_fl_A_7 [of None None None]
  by (simp add: getMetrics_fl_def Let_def str_or_empty_def parse_empty no_options_def
      getHeight_fl_def example_font_simps num_or_def fadd_def fsub_def fmul_def fdiv_def
      fl_zero fl_nums)

lemma getMetrics_fl_empty_7:
  "getMetrics_fl example_font [] (no_options\<lparr>fontSize := Some 7\<rparr>)
     = Inr \<lparr>m_x = 0, m_y = - (6305039478318695 / 1125899906842624), m_baseline = 0, m_width = 0,
         m_height = 7, m_ascender = 6305039478318695 / 1125899906842624,
         m_descender = - (6305039478318695 / 4503599627370496)\<rparr>"
  by (simp add: getMetrics_fl_def Let_def str_or_empty_def parse_empty no_options_simps
      getWidth_fl_empty_7 getHeight_fl_def example_font_simps num_or_def fadd_def fsub_def
      fmul_def fdiv_def fl_zero fl_nums)

lemma getMetrics_fl_A_7_top:
  "getMetrics_fl example_font ''A''
     (no_options\<lparr>fontSize := Some 7, anchor := Some ''top'', opt_x := None, opt_y := None\<rparr>)
     = Inr \<lparr>m_x = 0, m_y = 0, m_baseline = 6305039478318695 / 1125899906842624, m_width = 4728779608739021 / 1125899906842624,
         m_height = 7, m_ascender = 6305039478318695 / 1125899906842624,
         m_descender = - (6305039478318695 / 4503599627370496)\<rparr>"
  by (simp add: getMetrics_fl_def Let_def str_or_empty_def parse_top no_options_simps
      getWidth_fl_A_7 getHeight_fl_def example_font_simps num_or_def fadd_def fsub_def
      fmul_def fdiv_def fl_zero fl_nums)

lemma fsub_asc_desc_7: "fsub (6305039478318695 / 1125899906842624) (- (6305039478318695 / 4503599627370496)) = 7881299347898369 / 1125899906842624"
  by (simp add: fsub_def fl_nums)

lemma kerning_numbers_72:
  "fsub (1456633004477645 / 17592186044416) (3039929748475085 / 35184372088832) = - (126663739519795 / 35184372088832)"
  "fmul (- 50) (fmul (fdiv 1 1000) 72) = - (4053239664633447 / 1125899906842624)"
  "fmul (- 50) (fdiv 72 1000) = - (2026619832316723 / 562949953421312)"
  by (simp_all add: fsub_def fmul_def fdiv_def fl_nums)

text \<open>
  The roundings that occur at font size 100, where the widths of \<open>A\<close> and \<open>AV\<close> and the
  metrics are the numbers of exact arithmetic, and for \<open>A\<close> at font size 72.
\<close>

lemma fl_num_22: "fl (28823037615171175 / 288230376151711744) = 3602879701896397 / 36028797018963968"
proof -
  have "fl (28823037615171175 / 288230376151711744) = of_int 7205759403792794 * 2 powi ((- 4) - 52)"
    by (rule fl_cases) simp_all
  then show ?thesis by simp
qed

lemma fl_num_23: "fl (270215977642229775 / 4503599627370496) = 60"
proof -
  have "fl (270215977642229775 / 4503599627370496) = of_int 8444249301319680 * 2 powi (5 - 52)"
    by (rule fl_cases) simp_all
  then show ?thesis by simp
qed

lemma fl_num_24: "fl 60 = 60"
proof -
  have "fl 60 = of_int 8444249301319680 * 2 powi (5 - 52)"
    by (rule fl_cases) simp_all
  then show ?thesis by simp
qed

lemma fl_num_25: "fl (450359962737049625 / 4503599627370496) = 100"
proof -
  have "fl (450359962737049625 / 4503599627370496) = of_int 7036874417766400 * 2 powi (6 - 52)"
    by (rule fl_cases) simp_all
  then show ?thesis by simp
qed

lemma fl_num_26: "fl (90071992547409925 / 1125899906842624) = 80"
proof -
  have "fl (90071992547409925 / 1125899906842624) = of_int 5629499534213120 * 2 powi (6 - 52)"
    by (rule fl_cases) simp_all
  then show ?thesis by simp
qed

lemma fl_num_27: "fl (- (90071992547409925 / 4503599627370496)) = - 20"
proof -
  have "fl (- (90071992547409925 / 4503599627370496)) = of_int (- 5629499534213120) * 2 powi (4 - 52)"
    by (rule fl_cases) simp_all
  then show ?thesis by simp
qed

lemma fl_num_28: "fl 30 = 30"
proof -
  have "fl 30 = of_int 8444249301319680 * 2 powi (4 - 52)"
    by (rule fl_cases) simp_all
  then show ?thesis by simp
qed

lemma fl_num_29: "fl (- 30) = - 30"
proof -
  have "fl (- 30) = of_int (- 8444249301319680) * 2 powi (4 - 52)"
    by (rule fl_cases) simp_all
  then show ?thesis by simp
qed

lemma fl_num_30: "fl (- 80) = - 80"
proof -
  have "fl (- 80) = of_int (- 5629499534213120) * 2 powi (6 - 52)"
    by (rule fl_cases) simp_all
  then show ?thesis by simp
qed

lemma fl_num_31: "fl (- 60) = - 60"
proof -
  have "fl (- 60) = of_int (- 8444249301319680) * 2 powi (5 - 52)"
    by (rule fl_cases) simp_all
  then show ?thesis by simp
qed

lemma fl_num_32: "fl 80 = 80"
proof -
  have "fl 80 = of_int 5629499534213120 * 2 powi (6 - 52)"
    by (rule fl_cases) simp_all
  then show ?thesis by simp
qed

lemma fl_num_33: "fl (- 100) = - 100"
proof -
  have "fl (- 100) = of_int (- 7036874417766400) * 2 powi (6 - 52)"
    by (rule fl_cases) simp_all
  then show ?thesis by simp
qed

lemma fl_num_34: "fl (- 20) = - 20"
proof -
  have "fl (- 20) = of_int (- 5629499534213120) * 2 powi (4 - 52)"
    by (rule fl_cases) simp_all
  then show ?thesis by simp
qed

lemma fl_num_35: "fl 50 = 50"
proof -
  have "fl 50 = of_int 7036874417766400 * 2 powi (5 - 52)"
    by (rule fl_cases) simp_all
  then show ?thesis by simp
qed

lemma fl_num_36: "fl (- 50) = - 50"
proof -
  have "fl (- 50) = of_int (- 7036874417766400) * 2 powi (5 - 52)"
    by (rule fl_cases) simp_all
  then show ?thesis by simp
qed

lemma fl_num_37: "fl (- (90071992547409925 / 18014398509481984)) = - 5"
proof -
  have "fl (- (90071992547409925 / 18014398509481984)) = of_int (- 5629499534213120) * 2 powi (2 - 52)"
    by (rule fl_cases) simp_all
  then show ?thesis by simp
qed

lemma fl_num_38: "fl 55 = 55"
proof -
  have "fl 55 = of_int 7740561859543040 * 2 powi (5 - 52)"
    by (rule fl_cases) simp_all
  then show ?thesis by simp
qed

lemma fl_num_39: "fl 115 = 115"
proof -
  have "fl 115 = of_int 8092405580431360 * 2 powi (6 - 52)"
    by (rule fl_cases) simp_all
  then show ?thesis by simp
qed

lemma fl_num_40: "fl 120 = 120"
proof -
  have "fl 120 = of_int 8444249301319680 * 2 powi (6 - 52)"
    by (rule fl_cases) simp_all
  then show ?thesis by simp
qed

lemma fl_num_41: "fl (162129586585337875 / 2251799813685248) = 5066549580791809 / 70368744177664"
proof -
  have "fl (162129586585337875 / 2251799813685248) = of_int 5066549580791809 * 2 powi (6 - 52)"
    by (rule fl_cases) simp_all
  then show ?thesis by simp
qed

lemma fl_num_42: "fl (32425917317067575 / 562949953421312) = 4053239664633447 / 70368744177664"
proof -
  have "fl (32425917317067575 / 562949953421312) = of_int 8106479329266894 * 2 powi (5 - 52)"
    by (rule fl_cases) simp_all
  then show ?thesis by simp
qed

lemma fl_num_43: "fl (- (32425917317067575 / 2251799813685248)) = - (4053239664633447 / 281474976710656)"
proof -
  have "fl (- (32425917317067575 / 2251799813685248)) = of_int (- 8106479329266894) * 2 powi (3 - 52)"
    by (rule fl_cases) simp_all
  then show ?thesis by simp
qed

lemma fl_num_44: "fl (- (4053239664633447 / 70368744177664)) = - (4053239664633447 / 70368744177664)"
proof -
  have "fl (- (4053239664633447 / 70368744177664)) = of_int (- 8106479329266894) * 2 powi (5 - 52)"
    by (rule fl_cases) simp_all
  then show ?thesis by simp
qed

lemmas fl_nums_more = fl_num_22 fl_num_23 fl_num_24 fl_num_25 fl_num_26 fl_num_27 fl_num_28 fl_num_29 fl_num_30 fl_num_31 fl_num_32 fl_num_33 fl_num_34 fl_num_35 fl_num_36 fl_num_37 fl_num_38 fl_num_39 fl_num_40 fl_num_41 fl_num_42 fl_num_43 fl_num_44

lemma getWidth_fl_A_100:
  "getWidth_fl example_font ''A'' (no_options\<lparr>fontSize := Some 100, anchor := a, opt_x := px, opt_y := py\<rparr>) = 60"
  by (simp add: getWidth_fl_def getWidth_loop_fl.simps getWidth_step_fl_def getHeight_fl_def
      example_font_simps no_options_simps num_or_def kerning_of_def truthy_bool_def
      example_glyph_def example_kerning_def fadd_def fsub_def fmul_def fdiv_def fl_zero fl_nums
      fl_nums_more)



lemma getWidth_fl_A_zero:
  "getWidth_fl example_font ''A'' (no_options\<lparr>fontSize := Some 0\<rparr>) = 3039929748475085 / 70368744177664"
  by (simp add: getWidth_fl_def getWidth_loop_fl.simps getWidth_step_fl_def getHeight_fl_def
      example_font_simps no_options_simps num_or_def kerning_of_def truthy_bool_def
      example_glyph_def example_kerning_def fadd_def fsub_def fmul_def fdiv_def fl_zero fl_nums
      fl_nums_more)

lemma getMetrics_fl_A_zero:
  "getMetrics_fl example_font ''A'' (no_options\<lparr>fontSize := Some 0\<rparr>)
     = Inr \<lparr>m_x = 0, m_y = - (4053239664633447 / 70368744177664), m_baseline = 0, m_width = 3039929748475085 / 70368744177664,
         m_height = 5066549580791809 / 70368744177664, m_ascender = 4053239664633447 / 70368744177664,
         m_descender = - (4053239664633447 / 281474976710656)\<rparr>"
  by (simp add: getMetrics_fl_def Let_def str_or_empty_def parse_empty no_options_simps
      getWidth_fl_A_zero getHeight_fl_def example_font_simps num_or_def fadd_def fsub_def
      fmul_def fdiv_def fl_zero fl_nums fl_nums_more)

lemma example_values_100:
  "getHeight_fl example_font 100 = 100"
  "fmul 800 (fmul (fdiv 1 1000) 100) = 80"
  "fmul (- 200) (fmul (fdiv 1 1000) 100) = - 20"
  "fadd (- 100) 80 = - 20"
  "fadd (- 50) 80 = 30"
  by (simp_all add: getHeight_fl_def example_font_simps fadd_def fsub_def fmul_def fdiv_def
      fl_nums fl_nums_more)

section \<open>Claims\<close>

text \<open>
  C1. The claim: \<open>getMetrics\<close> never throws, for any anchor string, upper-case spellings
  such as \<open>LEFT\<close> or \<open>Center Middle\<close> included. The code: the search ignores case but
  returns the match in the input's spelling, and the \<open>switch\<close> compares it with the
  lower-case words, so for these two anchors, and any font, text and other options,
  \<open>getMetrics\<close> throws \<open>Unknown anchor option\<close>.
\<close>

theorem getMetrics_upper_case_anchor_throws:
  "getMetrics font text (options\<lparr>anchor := Some ''LEFT''\<rparr>)
     = Inl (Error ''Unknown anchor option: LEFT'')
   \<and> getMetrics font text (options\<lparr>anchor := Some ''Center Middle''\<rparr>)
     = Inl (Error ''Unknown anchor option: Center'')"
  by (simp add: getMetrics_def str_or_empty_def parse_LEFT parse_Center_Middle Let_def)

text \<open>
  C2. The claim: changing the letter case of the keywords in the anchor string does not
  change the resolved pair. The code: the parser returns the first occurrence as it is
  spelled in the input, so \<open>LEFT\<close> resolves to the horizontal value \<open>LEFT\<close>, and \<open>left\<close>
  to \<open>left\<close>.
\<close>

theorem parseAnchorOption_keeps_input_case:
  "parseAnchorOption ''LEFT'' = \<lparr>horizontal = ''LEFT'', vertical = ''baseline''\<rparr>
   \<and> parseAnchorOption ''left'' = \<lparr>horizontal = ''left'', vertical = ''baseline''\<rparr>
   \<and> parseAnchorOption ''LEFT'' \<noteq> parseAnchorOption ''left''"
  by (simp add: parse_LEFT parse_left)

text \<open>
  C3. The claim: with anchor \<open>left baseline\<close> and \<open>x = 0\<close>, \<open>y = 0\<close>, the returned \<open>x\<close> is 0
  and the returned \<open>baseline\<close> is the pixel ascender. On the concrete font (1000 units per
  em, ascender 800) at font size 100 the returned \<open>baseline\<close> is 0 and the pixel ascender
  is 80.
\<close>

theorem baseline_anchor_counterexample:
  "getMetrics example_font ''A''
     (no_options\<lparr>fontSize := Some 100, anchor := Some ''left baseline'',
        opt_x := Some 0, opt_y := Some 0\<rparr>)
   = Inr \<lparr>m_x = 0, m_y = - 80, m_baseline = 0, m_width = 60, m_height = 100,
         m_ascender = 80, m_descender = - 20\<rparr>
   \<and> ascender example_font * (100 / unitsPerEm example_font) = 80
   \<and> m_baseline (projr (getMetrics example_font ''A''
        (no_options\<lparr>fontSize := Some 100, anchor := Some ''left baseline'',
           opt_x := Some 0, opt_y := Some 0\<rparr>)))
      \<noteq> ascender example_font * (100 / unitsPerEm example_font)"
  by (simp add: getMetrics_def Let_def str_or_empty_def parse_left_baseline getWidth_example_A
      getHeight_def example_font_simps no_options_simps num_or_def)

text \<open>
  C3, as the code has it: for a font with positive \<open>unitsPerEm\<close>, every text and all other
  options, \<open>getMetrics\<close> with anchor \<open>left baseline\<close>, \<open>x = 0\<close> and \<open>y = 0\<close> returns
  \<open>x = 0\<close>, \<open>y\<close> equal to minus the pixel ascender, and \<open>baseline = 0\<close>: the \<open>baseline\<close>
  anchor puts the baseline at the caller's \<open>y\<close>.
\<close>

theorem metrics_left_baseline:
  assumes "0 < unitsPerEm font"
  shows "getMetrics font text
           (options\<lparr>anchor := Some ''left baseline'', opt_x := Some 0, opt_y := Some 0\<rparr>)
     = Inr \<lparr>m_x = 0,
            m_y = - (ascender font * (num_or (fontSize options) 72 / unitsPerEm font)),
            m_baseline = 0,
            m_width = getWidth font text options,
            m_height = getHeight font (num_or (fontSize options) 72),
            m_ascender = ascender font * (num_or (fontSize options) 72 / unitsPerEm font),
            m_descender = descender font * (num_or (fontSize options) 72 / unitsPerEm font)\<rparr>"
proof -
  have "getWidth font text
           (options\<lparr>anchor := Some ''left baseline'', opt_x := Some 0, opt_y := Some 0\<rparr>)
      = getWidth font text options"
    by (rule getWidth_fields) (simp_all add: kerning_of_def)
  then show ?thesis
    by (simp add: getMetrics_def Let_def str_or_empty_def parse_left_baseline num_or_def)
qed

theorem metrics_left_baseline_witness:
  "0 < unitsPerEm example_font
   \<and> getMetrics example_font ''A''
       (no_options\<lparr>fontSize := Some 100, anchor := Some ''left baseline'',
          opt_x := Some 0, opt_y := Some 0\<rparr>)
     = Inr \<lparr>m_x = 0, m_y = - 80, m_baseline = 0, m_width = 60, m_height = 100,
           m_ascender = 80, m_descender = - 20\<rparr>"
proof -
  have h: "0 < unitsPerEm example_font" by (simp add: example_font_simps)
  have w: "getWidth example_font ''A'' (no_options\<lparr>fontSize := Some 100\<rparr>) = 60"
    using getWidth_example_A [of None None None] by (simp add: no_options_def)
  show ?thesis
    using h metrics_left_baseline [OF h, of "''A''" "no_options\<lparr>fontSize := Some 100\<rparr>"]
    by (simp add: w getHeight_def example_font_simps num_or_def)
qed

text \<open>
  C4. The claim: the returned record has \<open>height == ascender - descender\<close>. In double
  precision, on the concrete font (1000 units per em, ascender 800, descender -200) at
  font size 7, \<open>getMetrics\<close> returns height 7, ascender 5.6000000000000005 and descender
  -1.4000000000000001, whose difference is 7.000000000000001, rounded or not.
\<close>

theorem metrics_height_counterexample:
  "getMetrics_fl example_font ''A'' (no_options\<lparr>fontSize := Some 7\<rparr>)
     = Inr \<lparr>m_x = 0, m_y = - (6305039478318695 / 1125899906842624), m_baseline = 0, m_width = 4728779608739021 / 1125899906842624,
         m_height = 7, m_ascender = 6305039478318695 / 1125899906842624,
         m_descender = - (6305039478318695 / 4503599627370496)\<rparr>
   \<and> fsub (6305039478318695 / 1125899906842624) (- (6305039478318695 / 4503599627370496)) = 7881299347898369 / 1125899906842624
   \<and> m_height (projr (getMetrics_fl example_font ''A'' (no_options\<lparr>fontSize := Some 7\<rparr>)))
       \<noteq> fsub (m_ascender (projr (getMetrics_fl example_font ''A'' (no_options\<lparr>fontSize := Some 7\<rparr>))))
               (m_descender (projr (getMetrics_fl example_font ''A'' (no_options\<lparr>fontSize := Some 7\<rparr>))))
   \<and> m_height (projr (getMetrics_fl example_font ''A'' (no_options\<lparr>fontSize := Some 7\<rparr>)))
       \<noteq> m_ascender (projr (getMetrics_fl example_font ''A'' (no_options\<lparr>fontSize := Some 7\<rparr>)))
           - m_descender (projr (getMetrics_fl example_font ''A'' (no_options\<lparr>fontSize := Some 7\<rparr>)))"
  by (simp add: getMetrics_fl_A_7 fsub_asc_desc_7)

text \<open>
  C4, as the code has it, in double precision: for a font with positive \<open>unitsPerEm\<close>, a
  record returned by \<open>getMetrics\<close> has \<open>baseline\<close> equal to the sum \<open>y + ascender\<close> of
  its own fields; its height is \<open>(font.ascender - font.descender) * fontScale\<close>, its
  ascender \<open>font.ascender * fontScale\<close> and its descender \<open>font.descender * fontScale\<close>,
  three products rounded one by one; the height is the same for any other text; the
  width is \<open>getWidth\<close> of the text and options, which does not change when the anchor
  string and the \<open>x\<close>, \<open>y\<close> origin are replaced, so a record returned for the changed
  options has the same width. With exact arithmetic in place of double precision the
  call returns a record too, and the height of that record is the difference of its
  ascender and its descender.
\<close>

theorem metrics_fields_fl:
  assumes "0 < unitsPerEm font"
    and "getMetrics_fl font text options = Inr m"
    and "getMetrics_fl font text' options = Inr m'"
    and "getMetrics_fl font text (options\<lparr>anchor := a, opt_x := px, opt_y := py\<rparr>) = Inr m''"
  shows "m_baseline m = fadd (m_y m) (m_ascender m)
       \<and> m_height m
           = fmul (fsub (ascender font) (descender font))
               (fmul (fdiv 1 (unitsPerEm font)) (num_or (fontSize options) 72))
       \<and> m_ascender m
           = fmul (ascender font) (fmul (fdiv 1 (unitsPerEm font)) (num_or (fontSize options) 72))
       \<and> m_descender m
           = fmul (descender font) (fmul (fdiv 1 (unitsPerEm font)) (num_or (fontSize options) 72))
       \<and> m_height m' = m_height m
       \<and> m_width m = getWidth_fl font text options
       \<and> getWidth_fl font text (options\<lparr>anchor := a, opt_x := px, opt_y := py\<rparr>)
           = getWidth_fl font text options
       \<and> m_width m'' = m_width m
       \<and> (\<exists>mr. getMetrics font text options = Inr mr
              \<and> m_height mr = m_ascender mr - m_descender mr)"
proof -
  obtain mr where mr: "getMetrics font text options = Inr mr"
    using getMetrics_fl_Inr_exact [OF assms(2)] by blast
  have e: "m_height mr = m_ascender mr - m_descender mr"
    by (simp add: getMetrics_Inr_fields [OF mr] getHeight_def left_diff_distrib)
  have w: "getWidth_fl font text (options\<lparr>anchor := a, opt_x := px, opt_y := py\<rparr>)
           = getWidth_fl font text options"
    by (rule getWidth_fl_fields) (simp_all add: kerning_of_def)
  have f: "m_baseline m = fadd (m_y m) (m_ascender m)
       \<and> m_height m
           = fmul (fsub (ascender font) (descender font))
               (fmul (fdiv 1 (unitsPerEm font)) (num_or (fontSize options) 72))
       \<and> m_ascender m
           = fmul (ascender font) (fmul (fdiv 1 (unitsPerEm font)) (num_or (fontSize options) 72))
       \<and> m_descender m
           = fmul (descender font) (fmul (fdiv 1 (unitsPerEm font)) (num_or (fontSize options) 72))
       \<and> m_height m' = m_height m
       \<and> m_width m = getWidth_fl font text options
       \<and> getWidth_fl font text (options\<lparr>anchor := a, opt_x := px, opt_y := py\<rparr>)
           = getWidth_fl font text options
       \<and> m_width m'' = m_width m"
    using w getMetrics_fl_Inr_fields(1) [OF assms(4)]
    by (simp add: getMetrics_fl_Inr_fields [OF assms(2)] getMetrics_fl_Inr_fields(2) [OF assms(3)]
        getHeight_fl_def)
  show ?thesis using f mr e by blast
qed

theorem metrics_fields_fl_witness:
  "0 < unitsPerEm example_font
   \<and> getMetrics_fl example_font ''A'' (no_options\<lparr>fontSize := Some 7\<rparr>)
       = Inr \<lparr>m_x = 0, m_y = - (6305039478318695 / 1125899906842624), m_baseline = 0, m_width = 4728779608739021 / 1125899906842624,
         m_height = 7, m_ascender = 6305039478318695 / 1125899906842624,
         m_descender = - (6305039478318695 / 4503599627370496)\<rparr>
   \<and> getMetrics_fl example_font [] (no_options\<lparr>fontSize := Some 7\<rparr>)
       = Inr \<lparr>m_x = 0, m_y = - (6305039478318695 / 1125899906842624), m_baseline = 0, m_width = 0,
         m_height = 7, m_ascender = 6305039478318695 / 1125899906842624,
         m_descender = - (6305039478318695 / 4503599627370496)\<rparr>
   \<and> getMetrics_fl example_font ''A''
         (no_options\<lparr>fontSize := Some 7, anchor := Some ''top'', opt_x := None, opt_y := None\<rparr>)
       = Inr \<lparr>m_x = 0, m_y = 0, m_baseline = 6305039478318695 / 1125899906842624, m_width = 4728779608739021 / 1125899906842624,
         m_height = 7, m_ascender = 6305039478318695 / 1125899906842624,
         m_descender = - (6305039478318695 / 4503599627370496)\<rparr>
   \<and> getWidth_fl example_font ''A''
         (no_options\<lparr>fontSize := Some 7, anchor := Some ''top'', opt_x := None, opt_y := None\<rparr>)
       = getWidth_fl example_font ''A'' (no_options\<lparr>fontSize := Some 7\<rparr>)
   \<and> getWidth_fl example_font ''A'' (no_options\<lparr>fontSize := Some 7\<rparr>) = 4728779608739021 / 1125899906842624
   \<and> getMetrics example_font ''A'' (no_options\<lparr>fontSize := Some 7\<rparr>)
       = Inr \<lparr>m_x = 0, m_y = - (28 / 5), m_baseline = 0, m_width = 21 / 5, m_height = 7,
             m_ascender = 28 / 5, m_descender = - (7 / 5)\<rparr>"
proof -
  note h = example_font_positive
  note p1 = getMetrics_fl_A_7
  note p2 = getMetrics_fl_empty_7
  note p3 = getMetrics_fl_A_7_top
  have x: "getMetrics example_font ''A'' (no_options\<lparr>fontSize := Some 7\<rparr>)
       = Inr \<lparr>m_x = 0, m_y = - (28 / 5), m_baseline = 0, m_width = 21 / 5, m_height = 7,
             m_ascender = 28 / 5, m_descender = - (7 / 5)\<rparr>"
    by (simp add: getMetrics_def Let_def str_or_empty_def parse_empty getHeight_def
        example_font_simps no_options_simps num_or_def getWidth_sum advance_px_def
        kerning_px_def spacing_rule_def truthy_num_def example_glyph_def)
  show ?thesis
    using h p1 p2 metrics_fields_fl [OF h p1 p2 p3]
    by (simp add: p3 x)
qed

text \<open>
  C5. For a font with positive \<open>unitsPerEm\<close>, with \<open>x\<close> and \<open>y\<close> absent, \<open>getMetrics\<close>
  returns a record whose width is \<open>getWidth\<close> of the text and whose height is
  \<open>getHeight\<close> of the font size, and in which anchor \<open>center\<close> gives \<open>x = - width / 2\<close>,
  anchor \<open>right\<close> gives \<open>x = - width\<close>, anchor \<open>top\<close> gives \<open>y = 0\<close>, anchor \<open>bottom\<close>
  gives \<open>y = - height\<close> and anchor \<open>middle\<close> gives \<open>y = - height / 2\<close>. Every field of
  the five records is stated, first with exact arithmetic, then in double precision,
  where the width is \<open>getWidth_fl\<close>, the height \<open>getHeight_fl\<close>, and halving and negating
  are exact.
\<close>

theorem metrics_anchor_offsets:
  assumes "0 < unitsPerEm font"
  shows "getMetrics font text (options\<lparr>anchor := Some ''center'', opt_x := None, opt_y := None\<rparr>)
         = Inr \<lparr>m_x = - (getWidth font text options / 2),
                m_y = - (ascender font * (num_or (fontSize options) 72 / unitsPerEm font)),
                m_baseline = 0,
                m_width = getWidth font text options,
                m_height = getHeight font (num_or (fontSize options) 72),
                m_ascender = ascender font * (num_or (fontSize options) 72 / unitsPerEm font),
                m_descender = descender font * (num_or (fontSize options) 72 / unitsPerEm font)\<rparr>
       \<and> getMetrics font text (options\<lparr>anchor := Some ''right'', opt_x := None, opt_y := None\<rparr>)
         = Inr \<lparr>m_x = - getWidth font text options,
                m_y = - (ascender font * (num_or (fontSize options) 72 / unitsPerEm font)),
                m_baseline = 0,
                m_width = getWidth font text options,
                m_height = getHeight font (num_or (fontSize options) 72),
                m_ascender = ascender font * (num_or (fontSize options) 72 / unitsPerEm font),
                m_descender = descender font * (num_or (fontSize options) 72 / unitsPerEm font)\<rparr>
       \<and> getMetrics font text (options\<lparr>anchor := Some ''top'', opt_x := None, opt_y := None\<rparr>)
         = Inr \<lparr>m_x = 0,
                m_y = 0,
                m_baseline = ascender font * (num_or (fontSize options) 72 / unitsPerEm font),
                m_width = getWidth font text options,
                m_height = getHeight font (num_or (fontSize options) 72),
                m_ascender = ascender font * (num_or (fontSize options) 72 / unitsPerEm font),
                m_descender = descender font * (num_or (fontSize options) 72 / unitsPerEm font)\<rparr>
       \<and> getMetrics font text (options\<lparr>anchor := Some ''bottom'', opt_x := None, opt_y := None\<rparr>)
         = Inr \<lparr>m_x = 0,
                m_y = - getHeight font (num_or (fontSize options) 72),
                m_baseline = - getHeight font (num_or (fontSize options) 72)
                    + ascender font * (num_or (fontSize options) 72 / unitsPerEm font),
                m_width = getWidth font text options,
                m_height = getHeight font (num_or (fontSize options) 72),
                m_ascender = ascender font * (num_or (fontSize options) 72 / unitsPerEm font),
                m_descender = descender font * (num_or (fontSize options) 72 / unitsPerEm font)\<rparr>
       \<and> getMetrics font text (options\<lparr>anchor := Some ''middle'', opt_x := None, opt_y := None\<rparr>)
         = Inr \<lparr>m_x = 0,
                m_y = - (getHeight font (num_or (fontSize options) 72) / 2),
                m_baseline = - (getHeight font (num_or (fontSize options) 72) / 2)
                    + ascender font * (num_or (fontSize options) 72 / unitsPerEm font),
                m_width = getWidth font text options,
                m_height = getHeight font (num_or (fontSize options) 72),
                m_ascender = ascender font * (num_or (fontSize options) 72 / unitsPerEm font),
                m_descender = descender font * (num_or (fontSize options) 72 / unitsPerEm font)\<rparr>
       \<and> getMetrics_fl font text (options\<lparr>anchor := Some ''center'', opt_x := None, opt_y := None\<rparr>)
         = Inr \<lparr>m_x = - (getWidth_fl font text options / 2),
                m_y = - fmul (ascender font) (fmul (fdiv 1 (unitsPerEm font)) (num_or (fontSize options) 72)),
                m_baseline = 0,
                m_width = getWidth_fl font text options,
                m_height = getHeight_fl font (num_or (fontSize options) 72),
                m_ascender = fmul (ascender font) (fmul (fdiv 1 (unitsPerEm font)) (num_or (fontSize options) 72)),
                m_descender = fmul (descender font) (fmul (fdiv 1 (unitsPerEm font)) (num_or (fontSize options) 72))\<rparr>
       \<and> getMetrics_fl font text (options\<lparr>anchor := Some ''right'', opt_x := None, opt_y := None\<rparr>)
         = Inr \<lparr>m_x = - getWidth_fl font text options,
                m_y = - fmul (ascender font) (fmul (fdiv 1 (unitsPerEm font)) (num_or (fontSize options) 72)),
                m_baseline = 0,
                m_width = getWidth_fl font text options,
                m_height = getHeight_fl font (num_or (fontSize options) 72),
                m_ascender = fmul (ascender font) (fmul (fdiv 1 (unitsPerEm font)) (num_or (fontSize options) 72)),
                m_descender = fmul (descender font) (fmul (fdiv 1 (unitsPerEm font)) (num_or (fontSize options) 72))\<rparr>
       \<and> getMetrics_fl font text (options\<lparr>anchor := Some ''top'', opt_x := None, opt_y := None\<rparr>)
         = Inr \<lparr>m_x = 0,
                m_y = 0,
                m_baseline = fmul (ascender font) (fmul (fdiv 1 (unitsPerEm font)) (num_or (fontSize options) 72)),
                m_width = getWidth_fl font text options,
                m_height = getHeight_fl font (num_or (fontSize options) 72),
                m_ascender = fmul (ascender font) (fmul (fdiv 1 (unitsPerEm font)) (num_or (fontSize options) 72)),
                m_descender = fmul (descender font) (fmul (fdiv 1 (unitsPerEm font)) (num_or (fontSize options) 72))\<rparr>
       \<and> getMetrics_fl font text (options\<lparr>anchor := Some ''bottom'', opt_x := None, opt_y := None\<rparr>)
         = Inr \<lparr>m_x = 0,
                m_y = - getHeight_fl font (num_or (fontSize options) 72),
                m_baseline = fadd (- getHeight_fl font (num_or (fontSize options) 72))
                    (fmul (ascender font) (fmul (fdiv 1 (unitsPerEm font)) (num_or (fontSize options) 72))),
                m_width = getWidth_fl font text options,
                m_height = getHeight_fl font (num_or (fontSize options) 72),
                m_ascender = fmul (ascender font) (fmul (fdiv 1 (unitsPerEm font)) (num_or (fontSize options) 72)),
                m_descender = fmul (descender font) (fmul (fdiv 1 (unitsPerEm font)) (num_or (fontSize options) 72))\<rparr>
       \<and> getMetrics_fl font text (options\<lparr>anchor := Some ''middle'', opt_x := None, opt_y := None\<rparr>)
         = Inr \<lparr>m_x = 0,
                m_y = - (getHeight_fl font (num_or (fontSize options) 72) / 2),
                m_baseline = fadd (- (getHeight_fl font (num_or (fontSize options) 72) / 2))
                    (fmul (ascender font) (fmul (fdiv 1 (unitsPerEm font)) (num_or (fontSize options) 72))),
                m_width = getWidth_fl font text options,
                m_height = getHeight_fl font (num_or (fontSize options) 72),
                m_ascender = fmul (ascender font) (fmul (fdiv 1 (unitsPerEm font)) (num_or (fontSize options) 72)),
                m_descender = fmul (descender font) (fmul (fdiv 1 (unitsPerEm font)) (num_or (fontSize options) 72))\<rparr>"
proof (intro conjI)
  show "getMetrics font text (options\<lparr>anchor := Some ''center'', opt_x := None, opt_y := None\<rparr>)
         = Inr \<lparr>m_x = - (getWidth font text options / 2),
                m_y = - (ascender font * (num_or (fontSize options) 72 / unitsPerEm font)),
                m_baseline = 0,
                m_width = getWidth font text options,
                m_height = getHeight font (num_or (fontSize options) 72),
                m_ascender = ascender font * (num_or (fontSize options) 72 / unitsPerEm font),
                m_descender = descender font * (num_or (fontSize options) 72 / unitsPerEm font)\<rparr>"
    by (simp add: getMetrics_def Let_def str_or_empty_def parse_center num_or_def
        getWidth_anchor_origin)
  show "getMetrics font text (options\<lparr>anchor := Some ''right'', opt_x := None, opt_y := None\<rparr>)
         = Inr \<lparr>m_x = - getWidth font text options,
                m_y = - (ascender font * (num_or (fontSize options) 72 / unitsPerEm font)),
                m_baseline = 0,
                m_width = getWidth font text options,
                m_height = getHeight font (num_or (fontSize options) 72),
                m_ascender = ascender font * (num_or (fontSize options) 72 / unitsPerEm font),
                m_descender = descender font * (num_or (fontSize options) 72 / unitsPerEm font)\<rparr>"
    by (simp add: getMetrics_def Let_def str_or_empty_def parse_right num_or_def
        getWidth_anchor_origin)
  show "getMetrics font text (options\<lparr>anchor := Some ''top'', opt_x := None, opt_y := None\<rparr>)
         = Inr \<lparr>m_x = 0,
                m_y = 0,
                m_baseline = ascender font * (num_or (fontSize options) 72 / unitsPerEm font),
                m_width = getWidth font text options,
                m_height = getHeight font (num_or (fontSize options) 72),
                m_ascender = ascender font * (num_or (fontSize options) 72 / unitsPerEm font),
                m_descender = descender font * (num_or (fontSize options) 72 / unitsPerEm font)\<rparr>"
    by (simp add: getMetrics_def Let_def str_or_empty_def parse_top num_or_def
        getWidth_anchor_origin)
  show "getMetrics font text (options\<lparr>anchor := Some ''bottom'', opt_x := None, opt_y := None\<rparr>)
         = Inr \<lparr>m_x = 0,
                m_y = - getHeight font (num_or (fontSize options) 72),
                m_baseline = - getHeight font (num_or (fontSize options) 72)
                    + ascender font * (num_or (fontSize options) 72 / unitsPerEm font),
                m_width = getWidth font text options,
                m_height = getHeight font (num_or (fontSize options) 72),
                m_ascender = ascender font * (num_or (fontSize options) 72 / unitsPerEm font),
                m_descender = descender font * (num_or (fontSize options) 72 / unitsPerEm font)\<rparr>"
    by (simp add: getMetrics_def Let_def str_or_empty_def parse_bottom num_or_def
        getWidth_anchor_origin)
  show "getMetrics font text (options\<lparr>anchor := Some ''middle'', opt_x := None, opt_y := None\<rparr>)
         = Inr \<lparr>m_x = 0,
                m_y = - (getHeight font (num_or (fontSize options) 72) / 2),
                m_baseline = - (getHeight font (num_or (fontSize options) 72) / 2)
                    + ascender font * (num_or (fontSize options) 72 / unitsPerEm font),
                m_width = getWidth font text options,
                m_height = getHeight font (num_or (fontSize options) 72),
                m_ascender = ascender font * (num_or (fontSize options) 72 / unitsPerEm font),
                m_descender = descender font * (num_or (fontSize options) 72 / unitsPerEm font)\<rparr>"
    by (simp add: getMetrics_def Let_def str_or_empty_def parse_middle num_or_def
        getWidth_anchor_origin)
  show "getMetrics_fl font text (options\<lparr>anchor := Some ''center'', opt_x := None, opt_y := None\<rparr>)
         = Inr \<lparr>m_x = - (getWidth_fl font text options / 2),
                m_y = - fmul (ascender font) (fmul (fdiv 1 (unitsPerEm font)) (num_or (fontSize options) 72)),
                m_baseline = 0,
                m_width = getWidth_fl font text options,
                m_height = getHeight_fl font (num_or (fontSize options) 72),
                m_ascender = fmul (ascender font) (fmul (fdiv 1 (unitsPerEm font)) (num_or (fontSize options) 72)),
                m_descender = fmul (descender font) (fmul (fdiv 1 (unitsPerEm font)) (num_or (fontSize options) 72))\<rparr>"
    by (simp add: getMetrics_fl_def Let_def str_or_empty_def parse_center num_or_None
        getWidth_fl_anchor_origin fl_origin)
  show "getMetrics_fl font text (options\<lparr>anchor := Some ''right'', opt_x := None, opt_y := None\<rparr>)
         = Inr \<lparr>m_x = - getWidth_fl font text options,
                m_y = - fmul (ascender font) (fmul (fdiv 1 (unitsPerEm font)) (num_or (fontSize options) 72)),
                m_baseline = 0,
                m_width = getWidth_fl font text options,
                m_height = getHeight_fl font (num_or (fontSize options) 72),
                m_ascender = fmul (ascender font) (fmul (fdiv 1 (unitsPerEm font)) (num_or (fontSize options) 72)),
                m_descender = fmul (descender font) (fmul (fdiv 1 (unitsPerEm font)) (num_or (fontSize options) 72))\<rparr>"
    by (simp add: getMetrics_fl_def Let_def str_or_empty_def parse_right num_or_None
        getWidth_fl_anchor_origin fl_origin)
  show "getMetrics_fl font text (options\<lparr>anchor := Some ''top'', opt_x := None, opt_y := None\<rparr>)
         = Inr \<lparr>m_x = 0,
                m_y = 0,
                m_baseline = fmul (ascender font) (fmul (fdiv 1 (unitsPerEm font)) (num_or (fontSize options) 72)),
                m_width = getWidth_fl font text options,
                m_height = getHeight_fl font (num_or (fontSize options) 72),
                m_ascender = fmul (ascender font) (fmul (fdiv 1 (unitsPerEm font)) (num_or (fontSize options) 72)),
                m_descender = fmul (descender font) (fmul (fdiv 1 (unitsPerEm font)) (num_or (fontSize options) 72))\<rparr>"
    by (simp add: getMetrics_fl_def Let_def str_or_empty_def parse_top num_or_None
        getWidth_fl_anchor_origin fl_origin)
  show "getMetrics_fl font text (options\<lparr>anchor := Some ''bottom'', opt_x := None, opt_y := None\<rparr>)
         = Inr \<lparr>m_x = 0,
                m_y = - getHeight_fl font (num_or (fontSize options) 72),
                m_baseline = fadd (- getHeight_fl font (num_or (fontSize options) 72))
                    (fmul (ascender font) (fmul (fdiv 1 (unitsPerEm font)) (num_or (fontSize options) 72))),
                m_width = getWidth_fl font text options,
                m_height = getHeight_fl font (num_or (fontSize options) 72),
                m_ascender = fmul (ascender font) (fmul (fdiv 1 (unitsPerEm font)) (num_or (fontSize options) 72)),
                m_descender = fmul (descender font) (fmul (fdiv 1 (unitsPerEm font)) (num_or (fontSize options) 72))\<rparr>"
    by (simp add: getMetrics_fl_def Let_def str_or_empty_def parse_bottom num_or_None
        getWidth_fl_anchor_origin fl_origin)
  show "getMetrics_fl font text (options\<lparr>anchor := Some ''middle'', opt_x := None, opt_y := None\<rparr>)
         = Inr \<lparr>m_x = 0,
                m_y = - (getHeight_fl font (num_or (fontSize options) 72) / 2),
                m_baseline = fadd (- (getHeight_fl font (num_or (fontSize options) 72) / 2))
                    (fmul (ascender font) (fmul (fdiv 1 (unitsPerEm font)) (num_or (fontSize options) 72))),
                m_width = getWidth_fl font text options,
                m_height = getHeight_fl font (num_or (fontSize options) 72),
                m_ascender = fmul (ascender font) (fmul (fdiv 1 (unitsPerEm font)) (num_or (fontSize options) 72)),
                m_descender = fmul (descender font) (fmul (fdiv 1 (unitsPerEm font)) (num_or (fontSize options) 72))\<rparr>"
    by (simp add: getMetrics_fl_def Let_def str_or_empty_def parse_middle num_or_None
        getWidth_fl_anchor_origin fl_origin)
qed

theorem metrics_anchor_offsets_witness:
  "0 < unitsPerEm example_font
   \<and> getMetrics example_font ''A''
       (no_options\<lparr>fontSize := Some 100, anchor := Some ''center'', opt_x := None, opt_y := None\<rparr>)
     = Inr \<lparr>m_x = - 30, m_y = - 80, m_baseline = 0, m_width = 60, m_height = 100,
           m_ascender = 80, m_descender = - 20\<rparr>
   \<and> getMetrics example_font ''A''
       (no_options\<lparr>fontSize := Some 100, anchor := Some ''right'', opt_x := None, opt_y := None\<rparr>)
     = Inr \<lparr>m_x = - 60, m_y = - 80, m_baseline = 0, m_width = 60, m_height = 100,
           m_ascender = 80, m_descender = - 20\<rparr>
   \<and> getMetrics example_font ''A''
       (no_options\<lparr>fontSize := Some 100, anchor := Some ''top'', opt_x := None, opt_y := None\<rparr>)
     = Inr \<lparr>m_x = 0, m_y = 0, m_baseline = 80, m_width = 60, m_height = 100,
           m_ascender = 80, m_descender = - 20\<rparr>
   \<and> getMetrics example_font ''A''
       (no_options\<lparr>fontSize := Some 100, anchor := Some ''bottom'', opt_x := None, opt_y := None\<rparr>)
     = Inr \<lparr>m_x = 0, m_y = - 100, m_baseline = - 20, m_width = 60, m_height = 100,
           m_ascender = 80, m_descender = - 20\<rparr>
   \<and> getMetrics example_font ''A''
       (no_options\<lparr>fontSize := Some 100, anchor := Some ''middle'', opt_x := None, opt_y := None\<rparr>)
     = Inr \<lparr>m_x = 0, m_y = - 50, m_baseline = 30, m_width = 60, m_height = 100,
           m_ascender = 80, m_descender = - 20\<rparr>
   \<and> getMetrics_fl example_font ''A''
       (no_options\<lparr>fontSize := Some 100, anchor := Some ''center'', opt_x := None, opt_y := None\<rparr>)
     = Inr \<lparr>m_x = - 30, m_y = - 80, m_baseline = 0, m_width = 60, m_height = 100,
           m_ascender = 80, m_descender = - 20\<rparr>
   \<and> getMetrics_fl example_font ''A''
       (no_options\<lparr>fontSize := Some 100, anchor := Some ''right'', opt_x := None, opt_y := None\<rparr>)
     = Inr \<lparr>m_x = - 60, m_y = - 80, m_baseline = 0, m_width = 60, m_height = 100,
           m_ascender = 80, m_descender = - 20\<rparr>
   \<and> getMetrics_fl example_font ''A''
       (no_options\<lparr>fontSize := Some 100, anchor := Some ''top'', opt_x := None, opt_y := None\<rparr>)
     = Inr \<lparr>m_x = 0, m_y = 0, m_baseline = 80, m_width = 60, m_height = 100,
           m_ascender = 80, m_descender = - 20\<rparr>
   \<and> getMetrics_fl example_font ''A''
       (no_options\<lparr>fontSize := Some 100, anchor := Some ''bottom'', opt_x := None, opt_y := None\<rparr>)
     = Inr \<lparr>m_x = 0, m_y = - 100, m_baseline = - 20, m_width = 60, m_height = 100,
           m_ascender = 80, m_descender = - 20\<rparr>
   \<and> getMetrics_fl example_font ''A''
       (no_options\<lparr>fontSize := Some 100, anchor := Some ''middle'', opt_x := None, opt_y := None\<rparr>)
     = Inr \<lparr>m_x = 0, m_y = - 50, m_baseline = 30, m_width = 60, m_height = 100,
           m_ascender = 80, m_descender = - 20\<rparr>"
proof -
  note h = example_font_positive
  have w: "getWidth example_font ''A'' (no_options\<lparr>fontSize := Some 100\<rparr>) = 60"
    using getWidth_example_A [of None None None] by (simp add: no_options_def)
  have wf: "getWidth_fl example_font ''A'' (no_options\<lparr>fontSize := Some 100\<rparr>) = 60"
    using getWidth_fl_A_100 [of None None None] by (simp add: no_options_def)
  show ?thesis
    using h metrics_anchor_offsets [OF h, of "''A''" "no_options\<lparr>fontSize := Some 100\<rparr>"]
    by (simp add: w wf getHeight_def example_font_simps num_or_def example_values_100)
qed

text \<open>
  C6. The claim: the width with kerning minus the width without kerning equals the sum
  of the kerning values times \<open>fontSize / unitsPerEm\<close>. In double precision, on the
  concrete font (advance 600, the pair \<open>A\<close>, \<open>V\<close> kerned by -50) at the default font
  size 72, the text \<open>AV\<close> has width 82.80000000000001 with kerning and 86.4 without;
  the difference is -3.5999999999999943, and -50 times the scale is
  -3.6000000000000005 (scale computed as the code does) or -3.5999999999999996 (scale
  computed as \<open>72 / 1000\<close>).
\<close>

theorem kerning_difference_counterexample:
  "getKerningValue example_font (example_glyph CHR ''A'') (example_glyph CHR ''V'') = - 50
   \<and> getWidth_fl example_font ''AV'' (no_options\<lparr>kerning := Some (Some True)\<rparr>) = 1456633004477645 / 17592186044416
   \<and> getWidth_fl example_font ''AV'' (no_options\<lparr>kerning := Some (Some False)\<rparr>) = 3039929748475085 / 35184372088832
   \<and> fsub (1456633004477645 / 17592186044416) (3039929748475085 / 35184372088832) = - (126663739519795 / 35184372088832)
   \<and> fmul (- 50) (fmul (fdiv 1 1000) 72) = - (4053239664633447 / 1125899906842624)
   \<and> fmul (- 50) (fdiv 72 1000) = - (2026619832316723 / 562949953421312)
   \<and> fsub (getWidth_fl example_font ''AV'' (no_options\<lparr>kerning := Some (Some True)\<rparr>))
        (getWidth_fl example_font ''AV'' (no_options\<lparr>kerning := Some (Some False)\<rparr>))
       \<noteq> fmul (getKerningValue example_font (example_glyph CHR ''A'') (example_glyph CHR ''V''))
           (fmul (fdiv 1 (unitsPerEm example_font)) 72)
   \<and> fsub (getWidth_fl example_font ''AV'' (no_options\<lparr>kerning := Some (Some True)\<rparr>))
        (getWidth_fl example_font ''AV'' (no_options\<lparr>kerning := Some (Some False)\<rparr>))
       \<noteq> fmul (getKerningValue example_font (example_glyph CHR ''A'') (example_glyph CHR ''V''))
           (fdiv 72 (unitsPerEm example_font))"
  by (simp add: getWidth_fl_AV_kerning getWidth_fl_AV_no_kerning kerning_numbers_72
      example_kerning_AV example_font_simps(1))

text \<open>
  C6, as the code has it: for a font with positive \<open>unitsPerEm\<close>, in double precision
  \<open>getWidth\<close> is the sum, from left to right, of its terms; with kerning disabled the
  terms are those of the call with kerning enabled without the kerning terms, which are
  \<open>kerningValue(i, i + 1) * fontScale\<close> for the consecutive glyph pairs; so the width
  with kerning disabled is the width with kerning enabled on the same font with every
  kerning value replaced by 0. With exact arithmetic the difference of the two widths is
  the sum of the kerning values times \<open>fontSize / unitsPerEm\<close>.
\<close>

theorem kerning_flag_adds_kerning_terms:
  assumes "0 < unitsPerEm font"
  shows "getWidth_fl font text options = foldl fadd 0 (map snd (width_terms font text options))
       \<and> width_terms font text (options\<lparr>kerning := Some (Some False)\<rparr>)
           = filter (\<lambda>t. fst t \<noteq> Kerning)
               (width_terms font text (options\<lparr>kerning := Some (Some True)\<rparr>))
       \<and> filter (\<lambda>t. fst t = Kerning)
             (width_terms font text (options\<lparr>kerning := Some (Some True)\<rparr>))
           = map (\<lambda>i. (Kerning,
                       fmul (getKerningValue font (stringToGlyphs font text ! i)
                               (stringToGlyphs font text ! (i + 1)))
                         (fmul (fdiv 1 (unitsPerEm font)) (num_or (fontSize options) 72))))
               [0..<length (stringToGlyphs font text) - 1]
       \<and> getWidth_fl font text (options\<lparr>kerning := Some (Some False)\<rparr>)
           = getWidth_fl (font\<lparr>getKerningValue := \<lambda>g1 g2. 0\<rparr>) text
               (options\<lparr>kerning := Some (Some True)\<rparr>)
       \<and> getWidth font text (options\<lparr>kerning := Some (Some True)\<rparr>)
           - getWidth font text (options\<lparr>kerning := Some (Some False)\<rparr>)
           = (\<Sum>i < length (stringToGlyphs font text) - 1.
                getKerningValue font (stringToGlyphs font text ! i)
                  (stringToGlyphs font text ! (i + 1)))
             * (num_or (fontSize options) 72 / unitsPerEm font)"
  using getWidth_fl_terms [of font "text" options] width_terms_no_kerning [of font "text" options]
    width_terms_kerning [of font "text" options] getWidth_fl_zero_kerning [of font "text" options]
    getWidth_kerning_difference [of font "text" options]
  by blast

theorem kerning_flag_adds_kerning_terms_witness:
  "0 < unitsPerEm example_font
   \<and> getWidth_fl (example_font\<lparr>getKerningValue := \<lambda>g1 g2. 0\<rparr>) ''AV'' (no_options\<lparr>kerning := Some (Some True)\<rparr>)
       = 3039929748475085 / 35184372088832
   \<and> getWidth example_font ''AV'' (no_options\<lparr>kerning := Some (Some True)\<rparr>)
       - getWidth example_font ''AV'' (no_options\<lparr>kerning := Some (Some False)\<rparr>)
       = - (18 / 5)"
proof -
  note h = example_font_positive
  note t = kerning_flag_adds_kerning_terms [OF h, of "''AV''" no_options]
  have a: "getWidth_fl example_font ''AV'' (no_options\<lparr>kerning := Some (Some False)\<rparr>)
      = getWidth_fl (example_font\<lparr>getKerningValue := \<lambda>g1 g2. 0\<rparr>) ''AV'' (no_options\<lparr>kerning := Some (Some True)\<rparr>)"
    using t by blast
  have b: "getWidth example_font ''AV'' (no_options\<lparr>kerning := Some (Some True)\<rparr>)
       - getWidth example_font ''AV'' (no_options\<lparr>kerning := Some (Some False)\<rparr>)
       = (\<Sum>i < length (stringToGlyphs example_font ''AV'') - 1.
                getKerningValue example_font (stringToGlyphs example_font ''AV'' ! i)
                  (stringToGlyphs example_font ''AV'' ! (i + 1)))
             * (num_or (fontSize no_options) 72 / unitsPerEm example_font)"
    using t by blast
  have c: "getWidth example_font ''AV'' (no_options\<lparr>kerning := Some (Some True)\<rparr>)
       - getWidth example_font ''AV'' (no_options\<lparr>kerning := Some (Some False)\<rparr>) = - (18 / 5)"
    unfolding b
    by (simp add: example_font_simps example_glyph_def example_kerning_def num_or_def
        no_options_simps)
  show ?thesis
    using h a c by (simp add: getWidth_fl_AV_no_kerning)
qed

text \<open>
  C7. The claim: for font size 0 the output is zero-sized. On the concrete font the text
  \<open>A\<close> at font size 0 has width 43.2 and height 72 (in double precision 43.2 and
  72.00000000000001): \<open>options.fontSize || 72\<close> replaces a font size of 0 by 72.
\<close>

theorem fontSize_zero_counterexample:
  "getWidth example_font ''A'' (no_options\<lparr>fontSize := Some 0\<rparr>) = 216 / 5
   \<and> getWidth example_font ''A'' (no_options\<lparr>fontSize := Some 0\<rparr>) \<noteq> 0
   \<and> getMetrics example_font ''A'' (no_options\<lparr>fontSize := Some 0\<rparr>)
     = Inr \<lparr>m_x = 0, m_y = - (288 / 5), m_baseline = 0, m_width = 216 / 5, m_height = 72,
           m_ascender = 288 / 5, m_descender = - (72 / 5)\<rparr>
   \<and> getWidth_fl example_font ''A'' (no_options\<lparr>fontSize := Some 0\<rparr>) = 3039929748475085 / 70368744177664
   \<and> getWidth_fl example_font ''A'' (no_options\<lparr>fontSize := Some 0\<rparr>) \<noteq> 0
   \<and> getMetrics_fl example_font ''A'' (no_options\<lparr>fontSize := Some 0\<rparr>)
     = Inr \<lparr>m_x = 0, m_y = - (4053239664633447 / 70368744177664), m_baseline = 0, m_width = 3039929748475085 / 70368744177664,
         m_height = 5066549580791809 / 70368744177664, m_ascender = 4053239664633447 / 70368744177664,
         m_descender = - (4053239664633447 / 281474976710656)\<rparr>"
  by (simp add: getWidth_fl_A_zero getMetrics_fl_A_zero getWidth_example_A_zero getMetrics_def Let_def str_or_empty_def parse_empty
      getHeight_def example_font_simps no_options_simps num_or_def)

text \<open>
  C7, as the code has it: on a font with positive \<open>unitsPerEm\<close>, for options whose anchor
  string resolves (its first horizontal and first vertical keyword occurrence, if any,
  are in lower case; every anchor string without upper-case letters resolves),
  \<open>getMetrics\<close>, \<open>getD\<close>, \<open>getPath\<close> and \<open>getSVG\<close> return without an exception
  (\<open>getWidth\<close> has no exception at all); for a text without glyphs \<open>getWidth\<close> returns 0
  whatever the font size and \<open>getSVG\<close> writes the string of the number 0 as the \<open>width\<close>
  attribute and the string of the font's height as the \<open>height\<close> attribute; and font
  size 0 gives, in \<open>getWidth\<close>, \<open>getMetrics\<close>, \<open>getD\<close> and \<open>getSVG\<close>, exactly the result of
  font size 72. The width and the metrics are stated in double precision as well:
  \<open>getMetrics_fl\<close> returns, \<open>getWidth_fl\<close> is 0 without glyphs, and both give at font size
  0 what they give at font size 72.
\<close>

theorem degenerate_inputs:
  assumes "0 < unitsPerEm font" and "anchor_resolves (str_or_empty (anchor options))"
  shows "(\<exists>m d p s. getMetrics font text options = Inr m \<and> getD font text options = Inr d
            \<and> getPath numToString font text options = Inr p
            \<and> getSVG numToString font text options = Inr s)
       \<and> (\<exists>m. getMetrics_fl font text options = Inr m)
       \<and> (stringToGlyphs font text = [] \<longrightarrow>
            getWidth font text options = 0
            \<and> getWidth_fl font text options = 0
            \<and> (\<exists>p. getPath numToString font text options = Inr p
                 \<and> getSVG numToString font text options
                   = Inr (svg_open (numToString 0)
                            (numToString (getHeight font (num_or (fontSize options) 72)))
                          @ p @ ''</svg>'')))
       \<and> getWidth font text (options\<lparr>fontSize := Some 0\<rparr>)
           = getWidth font text (options\<lparr>fontSize := Some 72\<rparr>)
       \<and> getMetrics font text (options\<lparr>fontSize := Some 0\<rparr>)
           = getMetrics font text (options\<lparr>fontSize := Some 72\<rparr>)
       \<and> getD font text (options\<lparr>fontSize := Some 0\<rparr>)
           = getD font text (options\<lparr>fontSize := Some 72\<rparr>)
       \<and> getSVG numToString font text (options\<lparr>fontSize := Some 0\<rparr>)
           = getSVG numToString font text (options\<lparr>fontSize := Some 72\<rparr>)
       \<and> getWidth_fl font text (options\<lparr>fontSize := Some 0\<rparr>)
           = getWidth_fl font text (options\<lparr>fontSize := Some 72\<rparr>)
       \<and> getMetrics_fl font text (options\<lparr>fontSize := Some 0\<rparr>)
           = getMetrics_fl font text (options\<lparr>fontSize := Some 72\<rparr>)
       \<and> (no_upper s \<longrightarrow> anchor_resolves s)"
proof (intro conjI impI)
  show "\<exists>m d p s. getMetrics font text options = Inr m \<and> getD font text options = Inr d
            \<and> getPath numToString font text options = Inr p
            \<and> getSVG numToString font text options = Inr s"
    using getMetrics_resolves [OF assms(2), of font "text"] getD_resolves [OF assms(2), of font "text"]
      getSVG_resolves [OF assms(2), of numToString font "text"]
    by blast
next
  show "\<exists>m. getMetrics_fl font text options = Inr m"
    using assms(2) by (rule getMetrics_fl_resolves)
next
  assume e: "stringToGlyphs font text = []"
  show "getWidth font text options = 0" using e by (rule getWidth_no_glyphs)
  show "getWidth_fl font text options = 0" using e by (rule getWidth_fl_no_glyphs)
  show "\<exists>p. getPath numToString font text options = Inr p
                 \<and> getSVG numToString font text options
                   = Inr (svg_open (numToString 0)
                            (numToString (getHeight font (num_or (fontSize options) 72)))
                          @ p @ ''</svg>'')"
    using getSVG_resolves [OF assms(2), of numToString font "text"]
    by (auto simp add: getWidth_no_glyphs [OF e])
next
  assume "no_upper s"
  then show "anchor_resolves s" by (rule anchor_resolves_lower)
qed (rule getWidth_fontSize_zero getMetrics_fontSize_zero getD_fontSize_zero
    getSVG_fontSize_zero getWidth_fl_fontSize_zero getMetrics_fl_fontSize_zero)+

theorem degenerate_inputs_witness:
  "0 < unitsPerEm example_font
   \<and> anchor_resolves (str_or_empty (anchor (no_options\<lparr>anchor := Some ''X left''\<rparr>)))
   \<and> stringToGlyphs example_font [] = []
   \<and> no_upper ''top''
   \<and> anchor_resolves ''top''
   \<and> getWidth example_font [] (no_options\<lparr>anchor := Some ''X left''\<rparr>) = 0
   \<and> getWidth_fl example_font [] (no_options\<lparr>anchor := Some ''X left''\<rparr>) = 0
   \<and> getSVG (\<lambda>r. if r = 0 then ''0'' else ''72'') example_font []
         (no_options\<lparr>anchor := Some ''X left''\<rparr>)
       = Inr (svg_open ''0'' ''72'' @ ''<path d='' @ dquote @ ''K'' @ dquote @ ''/>'' @ ''</svg>'')"
proof -
  note h = example_font_positive
  have a: "anchor_resolves (str_or_empty (anchor (no_options\<lparr>anchor := Some ''X left''\<rparr>)))"
    by (simp add: str_or_empty_def anchor_resolves_def parse_X_left)
  have e: "stringToGlyphs example_font [] = []" by (simp add: example_font_simps)
  have n: "no_upper ''top''" by (simp add: no_upper_def is_upper_def)
  have p: "getPath (\<lambda>r. if r = 0 then ''0'' else ''72'') example_font []
         (no_options\<lparr>anchor := Some ''X left''\<rparr>)
       = Inr (''<path d='' @ dquote @ ''K'' @ dquote @ ''/>'')"
    by (simp add: getPath_def getD_def getMetrics_def Let_def str_or_empty_def parse_X_left
        no_options_simps kerning_of_def example_font_simps example_path_def truthy_bool_def)
  show ?thesis
    using h a e n
      degenerate_inputs [OF h a, of "[]" "\<lambda>r. if r = 0 then ''0'' else ''72''" "''top''"]
    by (simp add: p getHeight_def example_font_simps no_options_simps num_or_def)
qed



text \<open>
  C9. The caller's options object, at a valid address of the store, is the same after
  \<open>getDebugSVG\<close> as before, whether the call returns or throws; so is every object that
  existed before the call. The assignments to \<open>x\<close> and \<open>y\<close> go to the copy, allocated at
  the end of the store.
\<close>

theorem getDebugSVG_keeps_caller_options:
  assumes "ref < length st"
  shows "fst (getDebugSVG numToString font text st ref) ! ref = st ! ref
       \<and> take (length st) (fst (getDebugSVG numToString font text st ref)) = st"
  using assms
  by (simp add: getDebugSVG_def Let_def nth_append split: sum.splits)

theorem getDebugSVG_keeps_caller_options_witness:
  "(0::nat) < length [no_options\<lparr>kerning := Some None\<rparr>]
   \<and> fst (getDebugSVG (\<lambda>r. ''n'') example_font ''A'' [no_options\<lparr>kerning := Some None\<rparr>] 0) ! 0
       = no_options\<lparr>kerning := Some None\<rparr>
   \<and> fst (getDebugSVG (\<lambda>r. ''n'') example_font ''A'' [no_options\<lparr>kerning := Some None\<rparr>] 0)
       = [no_options\<lparr>kerning := Some None\<rparr>,
          no_options\<lparr>opt_x := Some 0, opt_y := Some (288 / 5)\<rparr>]"
proof -
  have h: "(0::nat) < length [no_options\<lparr>kerning := Some None\<rparr>]" by simp
  show ?thesis
    using h getDebugSVG_keeps_caller_options [OF h, of "\<lambda>r. ''n''" example_font "''A''"]
    by (simp add: getDebugSVG_def Let_def json_copy_def getMetrics_def str_or_empty_def
        parse_empty no_options_def num_or_def num_add_def getHeight_def example_font_simps
        getPath_def getD_def split: sum.splits)
qed



end
